theory Spec2Isabelle
  imports Complex_Main "HOL-Library.Word"
begin

section \<open>Python and Pillow primitives used by generate_icon.py\<close>

text \<open>
  Python floats are modelled by the real numbers, Python integers by \<open>int\<close>, and the
  8-bit channels of a Pillow image by \<open>8 word\<close>. An image of the fixed size
  \<open>SIZE \<times> SIZE\<close> is a function from coordinates to pixel values; only the coordinates
  inside the canvas are meaningful.
\<close>

datatype error = IndexError | ValueError

type_synonym 'a image = "int \<times> int \<Rightarrow> 'a"

type_synonym rgba = "8 word \<times> 8 word \<times> 8 word \<times> 8 word"

type_synonym color4 = "int \<times> int \<times> int \<times> int"

type_synonym color3 = "int \<times> int \<times> int"

definition SIZE :: int where
  "SIZE = 1024"

definition MARGIN :: int where
  "MARGIN = 100"

definition CORNER :: int where
  "CORNER = 185"

definition in_canvas :: "int \<times> int \<Rightarrow> bool" where
  "in_canvas p = (0 \<le> fst p \<and> fst p < SIZE \<and> 0 \<le> snd p \<and> snd p < SIZE)"

text \<open>Python's \<open>int()\<close> on a float truncates towards zero.\<close>

definition py_int :: "real \<Rightarrow> int" where
  "py_int r = (if 0 \<le> r then \<lfloor>r\<rfloor> else \<lceil>r\<rceil>)"

text \<open>\<open>range(n)\<close> is \<open>0, 1, ..., n - 1\<close>, empty when \<open>n \<le> 0\<close>.\<close>

definition py_range :: "int \<Rightarrow> int list" where
  "py_range n = [0..n - 1]"

text \<open>A \<open>for\<close> loop whose body may raise: the first error ends the loop.\<close>

fun for_each :: "'i list \<Rightarrow> ('i \<Rightarrow> 's \<Rightarrow> error + 's) \<Rightarrow> 's \<Rightarrow> error + 's" where
  "for_each [] body s = Inr s"
| "for_each (i # is) body s =
     (case body i s of Inl e \<Rightarrow> Inl e | Inr s' \<Rightarrow> for_each is body s')"

text \<open>Pillow stores a channel given as a Python integer clipped to \<open>0..255\<close>.\<close>

definition clip8 :: "int \<Rightarrow> 8 word" where
  "clip8 v = word_of_int (max 0 (min 255 v))"

definition ink4 :: "color4 \<Rightarrow> rgba" where
  "ink4 c = (case c of (r, g, b, a) \<Rightarrow> (clip8 r, clip8 g, clip8 b, clip8 a))"

definition alpha_of :: "rgba \<Rightarrow> 8 word" where
  "alpha_of p = (case p of (r, g, b, a) \<Rightarrow> a)"

text \<open>\<open>Image.new(mode, (SIZE, SIZE), c)\<close>: every pixel is \<open>c\<close>.\<close>

definition new_image :: "'a \<Rightarrow> 'a image" where
  "new_image c = (\<lambda>p. c)"

text \<open>
  \<open>Image.putpixel\<close> and the pixel-access object returned by \<open>Image.load\<close>: a negative
  coordinate counts from the far side, and a coordinate that is still outside the image
  raises \<open>IndexError\<close>.
\<close>

definition putpixel :: "'a image \<Rightarrow> int \<times> int \<Rightarrow> 'a \<Rightarrow> error + 'a image" where
  "putpixel im xy v =
     (let x = (if fst xy < 0 then SIZE + fst xy else fst xy);
          y = (if snd xy < 0 then SIZE + snd xy else snd xy)
      in if x < 0 \<or> x \<ge> SIZE \<or> y < 0 \<or> y \<ge> SIZE then Inl IndexError
         else Inr (im((x, y) := v)))"

section \<open>The background painter of main\<close>

text \<open>
  Lines 98-104 of main: for every row the colour is computed from \<open>t = y / SIZE\<close> and
  written to every column of that row.
\<close>

definition row_color :: "int \<Rightarrow> color4" where
  "row_color y =
     (let t = real_of_int y / real_of_int SIZE;
          r = py_int (5 + t * 8);
          g = py_int (5 + t * 8);
          b = py_int (12 + t * 18)
      in (r, g, b, 255))"

definition background_row :: "int \<Rightarrow> rgba image \<Rightarrow> error + rgba image" where
  "background_row y content =
     for_each (py_range SIZE) (\<lambda>x c. putpixel c (x, y) (ink4 (row_color y))) content"

definition paint_background :: "rgba image \<Rightarrow> error + rgba image" where
  "paint_background content = for_each (py_range SIZE) background_row content"

section \<open>Wave descriptors and the wave height function\<close>

text \<open>The dictionaries of the list \<open>waves\<close> in main, one record field per key.\<close>

record wave =
  base_y :: int
  amplitude :: int
  freq :: real
  phase :: real
  edge :: color4
  body :: color3
  depth :: int
  blur :: int

definition waves :: "wave list" where
  "waves =
     [\<lparr>base_y = 300, amplitude = 25, freq = 6 / 1000, phase = 8 / 10,
        edge = (100, 190, 235, 140), body = (25, 60, 100), depth = 200, blur = 10\<rparr>,
      \<lparr>base_y = 400, amplitude = 45, freq = 85 / 10000, phase = 36 / 10,
        edge = (110, 200, 240, 170), body = (28, 70, 115), depth = 190, blur = 9\<rparr>,
      \<lparr>base_y = 510, amplitude = 50, freq = 7 / 1000, phase = 12 / 10,
        edge = (130, 215, 250, 200), body = (30, 80, 130), depth = 180, blur = 8\<rparr>,
      \<lparr>base_y = 620, amplitude = 42, freq = 95 / 10000, phase = 5,
        edge = (150, 225, 255, 225), body = (35, 90, 140), depth = 165, blur = 7\<rparr>,
      \<lparr>base_y = 740, amplitude = 35, freq = 8 / 1000, phase = 25 / 10,
        edge = (175, 240, 255, 250), body = (40, 100, 150), depth = 150, blur = 6\<rparr>]"

definition wave_y :: "real \<Rightarrow> real \<Rightarrow> real \<Rightarrow> real \<Rightarrow> real \<Rightarrow> real" where
  "wave_y x base amp fr ph = base + amp * sin (fr * x + ph)"

text \<open>The lambda \<open>y_func\<close> that main builds for a descriptor \<open>w\<close>.\<close>

definition y_func :: "wave \<Rightarrow> int \<Rightarrow> real" where
  "y_func w x =
     wave_y (real_of_int x) (real_of_int (base_y w)) (real_of_int (amplitude w)) (freq w) (phase w)"

section \<open>The body fill of draw_glass_wave\<close>

text \<open>
  Lines 61-62: \<open>t = dy / bloom_depth\<close> and
  \<open>alpha = int(edge_color[3] * 0.6 * math.exp(-3.5 * t))\<close>.
\<close>

definition body_alpha :: "color4 \<Rightarrow> int \<Rightarrow> int \<Rightarrow> int" where
  "body_alpha edge_color bloom_depth dy =
     (let t = real_of_int dy / real_of_int bloom_depth
      in py_int (real_of_int (snd (snd (snd edge_color))) * (6 / 10) * exp (- (35 / 10) * t)))"

text \<open>
  The inner loop over \<open>dy\<close> for one column \<open>x\<close> with crest \<open>wy\<close>, as the list of the
  pixel stores it performs, in order. A row outside the canvas is skipped
  (\<open>continue\<close>); an alpha below 1 ends the column (\<open>break\<close>).
\<close>

fun body_column ::
  "color4 \<Rightarrow> color3 \<Rightarrow> int \<Rightarrow> int \<Rightarrow> int \<Rightarrow> int list \<Rightarrow> ((int \<times> int) \<times> color4) list" where
  "body_column edge_color body_color bloom_depth x wy [] = []"
| "body_column edge_color body_color bloom_depth x wy (dy # dys) =
     (let y = wy + dy in
      if y < 0 \<or> y \<ge> SIZE then body_column edge_color body_color bloom_depth x wy dys
      else
        let alpha = body_alpha edge_color bloom_depth dy in
        if alpha < 1 then []
        else ((x, y), (fst body_color, fst (snd body_color), snd (snd body_color), alpha))
               # body_column edge_color body_color bloom_depth x wy dys)"

text \<open>The outer loop over the columns (lines 54-65).\<close>

definition body_writes ::
  "(int \<Rightarrow> real) \<Rightarrow> color4 \<Rightarrow> color3 \<Rightarrow> int \<Rightarrow> ((int \<times> int) \<times> color4) list" where
  "body_writes yf edge_color body_color bloom_depth =
     concat (map (\<lambda>x. body_column edge_color body_color bloom_depth x (py_int (yf x))
                         (py_range bloom_depth))
                 (py_range SIZE))"

text \<open>
  The stores go through the pixel-access object of a fresh transparent layer
  (lines 51-52 and 65).
\<close>

definition body_layer ::
  "(int \<Rightarrow> real) \<Rightarrow> color4 \<Rightarrow> color3 \<Rightarrow> int \<Rightarrow> error + rgba image" where
  "body_layer yf edge_color body_color bloom_depth =
     for_each (body_writes yf edge_color body_color bloom_depth)
       (\<lambda>w px. putpixel px (fst w) (ink4 (snd w)))
       (new_image (ink4 (0, 0, 0, 0)))"

text \<open>
  The formulation the specification compares with: the same loops without the early
  exit, so that every depth of the range is visited.
\<close>

fun body_column_full ::
  "color4 \<Rightarrow> color3 \<Rightarrow> int \<Rightarrow> int \<Rightarrow> int \<Rightarrow> int list \<Rightarrow> ((int \<times> int) \<times> color4) list" where
  "body_column_full edge_color body_color bloom_depth x wy [] = []"
| "body_column_full edge_color body_color bloom_depth x wy (dy # dys) =
     (let y = wy + dy in
      if y < 0 \<or> y \<ge> SIZE then body_column_full edge_color body_color bloom_depth x wy dys
      else
        let alpha = body_alpha edge_color bloom_depth dy in
        ((x, y), (fst body_color, fst (snd body_color), snd (snd body_color), alpha))
          # body_column_full edge_color body_color bloom_depth x wy dys)"

definition body_writes_full ::
  "(int \<Rightarrow> real) \<Rightarrow> color4 \<Rightarrow> color3 \<Rightarrow> int \<Rightarrow> ((int \<times> int) \<times> color4) list" where
  "body_writes_full yf edge_color body_color bloom_depth =
     concat (map (\<lambda>x. body_column_full edge_color body_color bloom_depth x (py_int (yf x))
                         (py_range bloom_depth))
                 (py_range SIZE))"

section \<open>Pillow drawing and compositing operations\<close>

type_synonym box = "int \<times> int \<times> int \<times> int"

definition in_box :: "box \<Rightarrow> int \<times> int \<Rightarrow> bool" where
  "in_box bx p =
     (case bx of (x0, y0, x1, y1) \<Rightarrow> x0 \<le> fst p \<and> fst p \<le> x1 \<and> y0 \<le> snd p \<and> snd p \<le> y1)"

definition valid_box :: "box \<Rightarrow> bool" where
  "valid_box bx = (case bx of (x0, y0, x1, y1) \<Rightarrow> x0 \<le> x1 \<and> y0 \<le> y1)"

text \<open>
  Modelled from the spec: \<open>ImageDraw.rectangle\<close> is Pillow code, not part of src/. The
  mask builder "fills the central cross (top/bottom and left/right inset rectangles) at
  full opacity": a filled rectangle sets every pixel of its bounding box, both corners
  included, and Pillow rejects a box whose second corner lies before the first.
\<close>

definition rectangle :: "box \<Rightarrow> 'a \<Rightarrow> 'a image \<Rightarrow> error + 'a image" where
  "rectangle bx fill im =
     (if valid_box bx then Inr (\<lambda>p. if in_box bx p then fill else im p) else Inl ValueError)"

text \<open>
  Modelled from the spec: \<open>Image.alpha_composite\<close> is Pillow code, not part of src/. It is
  the "standard alpha-over" operator, source over destination, each layer weighted by
  its own alpha channel, in Pillow's 8-bit fixed-point form: a transparent source pixel
  leaves the destination pixel as it is; otherwise the output alpha is
  \<open>src.a + dst.a (255 - src.a) / 255\<close> and each colour channel is the mean of source and
  destination weighted by \<open>coef1 = src.a / out.a\<close> and \<open>coef2 = 1 - coef1\<close>, with seven
  extra bits of precision and rounded divisions by 255.
\<close>

definition shiftfordiv255 :: "nat \<Rightarrow> nat" where
  "shiftfordiv255 a = (a div 256 + a) div 256"

definition composite_pixel :: "rgba \<Rightarrow> rgba \<Rightarrow> rgba" where
  "composite_pixel dst src =
     (case dst of (dr, dg, db, da) \<Rightarrow>
      case src of (sr, sg, sb, sa) \<Rightarrow>
        if sa = 0 then dst
        else
          let blend = unat da * (255 - unat sa);
              outa255 = unat sa * 255 + blend;
              coef1 = unat sa * 255 * 255 * 128 div outa255;
              coef2 = 255 * 128 - coef1;
              tmpr = unat sr * coef1 + unat dr * coef2;
              tmpg = unat sg * coef1 + unat dg * coef2;
              tmpb = unat sb * coef1 + unat db * coef2
          in (of_nat (shiftfordiv255 (tmpr + 128 * 128) div 128),
              of_nat (shiftfordiv255 (tmpg + 128 * 128) div 128),
              of_nat (shiftfordiv255 (tmpb + 128 * 128) div 128),
              of_nat (shiftfordiv255 (outa255 + 128))))"

definition alpha_composite :: "rgba image \<Rightarrow> rgba image \<Rightarrow> rgba image" where
  "alpha_composite im1 im2 = (\<lambda>p. composite_pixel (im1 p) (im2 p))"

text \<open>
  Modelled from the spec: \<open>Image.putalpha\<close> is Pillow code, not part of src/: "the opacity
  channel of the entire content canvas is overwritten wholesale with the mask".
\<close>

definition putalpha :: "rgba image \<Rightarrow> 8 word image \<Rightarrow> rgba image" where
  "putalpha im msk = (\<lambda>p. case im p of (r, g, b, a) \<Rightarrow> (r, g, b, msk p))"

text \<open>
  The remaining Pillow operations are rasterisation and filtering algorithms whose
  pixel-level results the program does not fix: \<open>ImageDraw.pieslice\<close> on the mask,
  \<open>ImageDraw.line\<close> (points, fill, width) and the \<open>GaussianBlur\<close> filter (radius). The
  program is modelled for any implementation of them.
\<close>

record pil =
  pil_pieslice :: "box \<Rightarrow> int \<Rightarrow> int \<Rightarrow> 8 word \<Rightarrow> 8 word image \<Rightarrow> error + 8 word image"
  pil_line :: "(int \<times> int) list \<Rightarrow> color4 \<Rightarrow> int \<Rightarrow> rgba image \<Rightarrow> rgba image"
  pil_gaussian_blur :: "int \<Rightarrow> rgba image \<Rightarrow> rgba image"

text \<open>
  What the mask builder relies on: a pie slice drawn in a valid bounding box succeeds,
  touches no pixel outside the box, and leaves every pixel either as it was or set to
  the fill value.
\<close>

definition pieslice_ok ::
  "(box \<Rightarrow> int \<Rightarrow> int \<Rightarrow> 8 word \<Rightarrow> 8 word image \<Rightarrow> error + 8 word image) \<Rightarrow> bool" where
  "pieslice_ok ps =
     (\<forall>bx s e fill im. valid_box bx \<longrightarrow>
        (\<exists>im'. ps bx s e fill im = Inr im' \<and>
           (\<forall>p. (im' p = im p \<or> im' p = fill) \<and> (\<not> in_box bx p \<longrightarrow> im' p = im p))))"

section \<open>rounded_rect\<close>

definition rounded_rect :: "pil \<Rightarrow> 8 word image \<Rightarrow> box \<Rightarrow> int \<Rightarrow> int \<Rightarrow> error + 8 word image" where
  "rounded_rect lib draw xy radius fill =
     (case xy of (x0, y0, x1, y1) \<Rightarrow>
      case rectangle (x0 + radius, y0, x1 - radius, y1) (clip8 fill) draw of
        Inl e \<Rightarrow> Inl e
      | Inr d1 \<Rightarrow>
      case rectangle (x0, y0 + radius, x1, y1 - radius) (clip8 fill) d1 of
        Inl e \<Rightarrow> Inl e
      | Inr d2 \<Rightarrow>
      case pil_pieslice lib (x0, y0, x0 + 2 * radius, y0 + 2 * radius) 180 270 (clip8 fill) d2 of
        Inl e \<Rightarrow> Inl e
      | Inr d3 \<Rightarrow>
      case pil_pieslice lib (x1 - 2 * radius, y0, x1, y0 + 2 * radius) 270 360 (clip8 fill) d3 of
        Inl e \<Rightarrow> Inl e
      | Inr d4 \<Rightarrow>
      case pil_pieslice lib (x0, y1 - 2 * radius, x0 + 2 * radius, y1) 90 180 (clip8 fill) d4 of
        Inl e \<Rightarrow> Inl e
      | Inr d5 \<Rightarrow>
        pil_pieslice lib (x1 - 2 * radius, y1 - 2 * radius, x1, y1) 0 90 (clip8 fill) d5)"

text \<open>The mask of main (lines 88-94).\<close>

definition icon_mask :: "pil \<Rightarrow> error + 8 word image" where
  "icon_mask lib =
     rounded_rect lib (new_image 0) (MARGIN, MARGIN, SIZE - MARGIN, SIZE - MARGIN) CORNER 255"

section \<open>draw_glass_wave and main\<close>

definition edge_layer :: "pil \<Rightarrow> (int \<Rightarrow> real) \<Rightarrow> color4 \<Rightarrow> rgba image" where
  "edge_layer lib yf edge_color =
     (let points = map (\<lambda>x. (x, py_int (yf x))) (py_range SIZE)
      in pil_line lib points edge_color 1 (new_image (ink4 (0, 0, 0, 0))))"

definition bloom_layer :: "pil \<Rightarrow> (int \<Rightarrow> real) \<Rightarrow> color4 \<Rightarrow> int \<Rightarrow> rgba image" where
  "bloom_layer lib yf edge_color bloom_blur =
     pil_gaussian_blur lib bloom_blur (edge_layer lib yf edge_color)"

definition draw_glass_wave ::
  "pil \<Rightarrow> rgba image \<Rightarrow> (int \<Rightarrow> real) \<Rightarrow> color4 \<Rightarrow> color3 \<Rightarrow> int \<Rightarrow> int \<Rightarrow> error + rgba image" where
  "draw_glass_wave lib img yf edge_color body_color bloom_depth bloom_blur =
     (case body_layer yf edge_color body_color bloom_depth of
        Inl e \<Rightarrow> Inl e
      | Inr body_im \<Rightarrow>
          let img1 = alpha_composite img body_im;
              img2 = alpha_composite img1 (bloom_layer lib yf edge_color bloom_blur);
              img3 = alpha_composite img2 (edge_layer lib yf edge_color)
          in Inr img3)"

text \<open>The loop over the wave list (lines 164-170), for any list and starting canvas.\<close>

definition render_waves :: "pil \<Rightarrow> wave list \<Rightarrow> rgba image \<Rightarrow> error + rgba image" where
  "render_waves lib ws content =
     for_each ws
       (\<lambda>w c. draw_glass_wave lib c (y_func w) (edge w) (body w) (depth w) (blur w))
       content"

text \<open>main up to the final composite; writing the PNG file is not modelled.\<close>

definition main :: "pil \<Rightarrow> error + rgba image" where
  "main lib =
     (let img = new_image (ink4 (0, 0, 0, 0)) in
      case icon_mask lib of
        Inl e \<Rightarrow> Inl e
      | Inr msk \<Rightarrow>
      case paint_background (new_image (ink4 (0, 0, 0, 0))) of
        Inl e \<Rightarrow> Inl e
      | Inr content \<Rightarrow>
      case render_waves lib waves content of
        Inl e \<Rightarrow> Inl e
      | Inr content' \<Rightarrow>
          Inr (alpha_composite img (putalpha content' msk)))"

section \<open>Specification predicates, reference operations and sample descriptors\<close>

text \<open>
  When the column loop started at depth \<open>k\<close> performs the store \<open>w\<close> at depth \<open>dy\<close>:
  the row is inside the canvas, and no visited row inside the canvas, from \<open>k\<close> up to
  \<open>dy\<close>, had an alpha below 1.
\<close>

definition column_hit ::
  "color4 \<Rightarrow> color3 \<Rightarrow> int \<Rightarrow> int \<Rightarrow> int \<Rightarrow> int \<Rightarrow> (int \<times> int) \<times> color4 \<Rightarrow> int \<Rightarrow> bool" where
  "column_hit ec bc D x wy k w dy \<longleftrightarrow>
     k \<le> dy \<and> dy < D \<and> fst w = (x, wy + dy) \<and> 0 \<le> wy + dy \<and> wy + dy < SIZE \<and>
     snd w = (fst bc, fst (snd bc), snd (snd bc), body_alpha ec D dy) \<and>
     (\<forall>d. k \<le> d \<and> d \<le> dy \<and> (0 \<le> wy + d \<and> wy + d < SIZE) \<longrightarrow> 1 \<le> body_alpha ec D d)"

text \<open>
  Modelled from the spec: reference instances of the three Pillow operations that the
  program is parametrised by, to evaluate it on concrete pixels. "Four corner disks using
  quarter-circle arcs, each spanning exactly 90 degrees": a pie slice that fills whole
  quadrants of the ellipse inscribed in its bounding box.
\<close>

definition in_quadrant :: "int \<Rightarrow> int \<times> int \<Rightarrow> bool" where
  "in_quadrant q d =
     (if q = 0 then 0 \<le> fst d \<and> 0 \<le> snd d
      else if q = 1 then fst d \<le> 0 \<and> 0 \<le> snd d
      else if q = 2 then fst d \<le> 0 \<and> snd d \<le> 0
      else 0 \<le> fst d \<and> snd d \<le> 0)"

definition in_slice :: "box \<Rightarrow> int \<Rightarrow> int \<Rightarrow> int \<times> int \<Rightarrow> bool" where
  "in_slice bx s e p =
     (case bx of (x0, y0, x1, y1) \<Rightarrow>
        let w = x1 - x0; h = y1 - y0;
            dx = 2 * fst p - (x0 + x1); dy = 2 * snd p - (y0 + y1)
        in (dx * h)\<^sup>2 + (dy * w)\<^sup>2 \<le> (w * h)\<^sup>2 \<and>
           list_ex (\<lambda>q. s \<le> 90 * q \<and> 90 * (q + 1) \<le> e \<and> in_quadrant q (dx, dy)) [0, 1, 2, 3])"

definition ref_pieslice ::
  "box \<Rightarrow> int \<Rightarrow> int \<Rightarrow> 8 word \<Rightarrow> 8 word image \<Rightarrow> error + 8 word image" where
  "ref_pieslice bx s e fill im =
     (if valid_box bx
      then Inr (\<lambda>p. if in_box bx p \<and> in_slice bx s e p then fill else im p)
      else Inl ValueError)"

text \<open>
  Modelled from the spec: "a single connected polyline through all sample points,
  thickness of one pixel". Consecutive points are joined by the pixels of the straight
  segment between them: with \<open>n\<close> the larger of the two coordinate differences, the
  pixels \<open>a + round (i (b - a) / n)\<close> for \<open>i = 0, ..., n\<close>, both end points included.
\<close>

definition segment_pixels :: "int \<times> int \<Rightarrow> int \<times> int \<Rightarrow> (int \<times> int) list" where
  "segment_pixels a b =
     (let dx = fst b - fst a; dy = snd b - snd a; n = max \<bar>dx\<bar> \<bar>dy\<bar>
      in map (\<lambda>i. (fst a + (2 * i * dx + n) div (2 * n), snd a + (2 * i * dy + n) div (2 * n)))
           [0..n])"

definition polyline_pixels :: "(int \<times> int) list \<Rightarrow> (int \<times> int) list" where
  "polyline_pixels points =
     concat (map (\<lambda>ab. segment_pixels (fst ab) (snd ab)) (zip points (tl points)))"

definition ref_line :: "(int \<times> int) list \<Rightarrow> color4 \<Rightarrow> int \<Rightarrow> rgba image \<Rightarrow> rgba image" where
  "ref_line points fill width im =
     (\<lambda>p. if p \<in> set (polyline_pixels points) then ink4 fill else im p)"

text \<open>
  Modelled from the spec: "an isotropic Gaussian blur with the wave's specified radius".
  Every channel of a pixel becomes the mean of that channel over the neighbouring pixels,
  weighted by the Gaussian kernel \<open>exp (- (i\<^sup>2 + j\<^sup>2) / (2 radius\<^sup>2))\<close> of the offset
  \<open>(i, j)\<close>, whose standard deviation is the radius; the kernel is cut off at three
  standard deviations and the mean is rounded to the nearest integer.
\<close>

definition gauss_weight :: "int \<Rightarrow> int \<times> int \<Rightarrow> real" where
  "gauss_weight radius k =
     exp (- real_of_int ((fst k)\<^sup>2 + (snd k)\<^sup>2) / real_of_int (2 * radius\<^sup>2))"

definition ref_blur :: "int \<Rightarrow> rgba image \<Rightarrow> rgba image" where
  "ref_blur radius im =
     (\<lambda>p. let win = concat (map (\<lambda>i. map (\<lambda>j. (i, j)) [- 3 * radius..3 * radius])
                               [- 3 * radius..3 * radius]);
               total = sum_list (map (gauss_weight radius) win);
               mean = (\<lambda>ch. clip8 \<lfloor>sum_list (map (\<lambda>k. gauss_weight radius k *
                                   real (unat (ch (im (fst p + fst k, snd p + snd k))))) win)
                                 / total + 1 / 2\<rfloor>)
           in (mean fst, mean (\<lambda>c. fst (snd c)), mean (\<lambda>c. fst (snd (snd c))),
               mean (\<lambda>c. snd (snd (snd c)))))"

definition ref_pil :: pil where
  "ref_pil = \<lparr>pil_pieslice = ref_pieslice, pil_line = ref_line, pil_gaussian_blur = ref_blur\<rparr>"

text \<open>
  Two descriptors of a flat wave at row 300 (amplitude 0) for the order of compositing;
  they differ in the body colour only.
\<close>

definition flat_a :: wave where
  "flat_a = \<lparr>base_y = 300, amplitude = 0, freq = 6 / 1000, phase = 8 / 10,
     edge = (100, 190, 235, 100), body = (25, 60, 100), depth = 200, blur = 10\<rparr>"

definition flat_c :: wave where
  "flat_c = \<lparr>base_y = 300, amplitude = 0, freq = 6 / 1000, phase = 8 / 10,
     edge = (100, 190, 235, 100), body = (200, 10, 10), depth = 200, blur = 10\<rparr>"

text \<open>The pixel at \<open>p\<close> of the image a computation returns, if it returns one.\<close>

definition pixel_of :: "error + 'a image \<Rightarrow> int \<times> int \<Rightarrow> 'a option" where
  "pixel_of r p = (case r of Inl e \<Rightarrow> None | Inr im \<Rightarrow> Some (im p))"

section \<open>Properties of the background painter\<close>

lemma set_py_range: "set (py_range n) = {0..<n}"
  by (auto simp: py_range_def)

lemma putpixel_in_canvas:
  "0 \<le> x \<Longrightarrow> x < SIZE \<Longrightarrow> 0 \<le> y \<Longrightarrow> y < SIZE \<Longrightarrow> putpixel im (x, y) v = Inr (im((x, y) := v))"
  by (simp add: putpixel_def)

lemma row_loop:
  assumes "set xs \<subseteq> {0..<SIZE}" and "0 \<le> y" and "y < SIZE"
  shows "\<exists>c'. for_each xs (\<lambda>x c. putpixel c (x, y) v) c0 = Inr c' \<and>
           (\<forall>p. c' p = (if snd p = y \<and> fst p \<in> set xs then v else c0 p))"
  using assms(1)
proof (induction xs arbitrary: c0)
  case Nil
  then show ?case by simp
next
  case (Cons x xs)
  from Cons.prems have x: "0 \<le> x" "x < SIZE" and xs: "set xs \<subseteq> {0..<SIZE}"
    by auto
  from Cons.IH [OF xs, of "c0((x, y) := v)"] obtain c' where
    c': "for_each xs (\<lambda>x c. putpixel c (x, y) v) (c0((x, y) := v)) = Inr c'"
    and px: "\<forall>p. c' p = (if snd p = y \<and> fst p \<in> set xs then v else (c0((x, y) := v)) p)"
    by blast
  have "for_each (x # xs) (\<lambda>x c. putpixel c (x, y) v) c0 = Inr c'"
    using c' x assms(2,3) by (simp add: putpixel_in_canvas)
  moreover have "\<forall>p. c' p = (if snd p = y \<and> fst p \<in> set (x # xs) then v else c0 p)"
    using px by (auto simp: prod_eq_iff)
  ultimately show ?case by blast
qed

lemma background_row_result:
  assumes "0 \<le> y" and "y < SIZE"
  shows "\<exists>c'. background_row y c0 = Inr c' \<and>
           (\<forall>p. c' p = (if snd p = y \<and> 0 \<le> fst p \<and> fst p < SIZE then ink4 (row_color y) else c0 p))"
proof -
  have "set (py_range SIZE) \<subseteq> {0..<SIZE}"
    by (simp add: set_py_range)
  from row_loop [OF this assms, of "ink4 (row_color y)" c0]
  show ?thesis
    by (simp add: background_row_def set_py_range)
qed

lemma rows_loop:
  assumes "set ys \<subseteq> {0..<SIZE}"
  shows "\<exists>c'. for_each ys background_row c0 = Inr c' \<and>
           (\<forall>p. c' p = (if snd p \<in> set ys \<and> 0 \<le> fst p \<and> fst p < SIZE
                         then ink4 (row_color (snd p)) else c0 p))"
  using assms
proof (induction ys arbitrary: c0)
  case Nil
  then show ?case by simp
next
  case (Cons y ys)
  from Cons.prems have y: "0 \<le> y" "y < SIZE" and ys: "set ys \<subseteq> {0..<SIZE}"
    by auto
  from background_row_result [OF y, of c0] obtain c1 where
    c1: "background_row y c0 = Inr c1"
    and p1: "\<forall>p. c1 p = (if snd p = y \<and> 0 \<le> fst p \<and> fst p < SIZE then ink4 (row_color y) else c0 p)"
    by blast
  from Cons.IH [OF ys, of c1] obtain c' where
    c': "for_each ys background_row c1 = Inr c'"
    and p': "\<forall>p. c' p = (if snd p \<in> set ys \<and> 0 \<le> fst p \<and> fst p < SIZE
                          then ink4 (row_color (snd p)) else c1 p)"
    by blast
  have "for_each (y # ys) background_row c0 = Inr c'"
    using c1 c' by simp
  moreover have "\<forall>p. c' p = (if snd p \<in> set (y # ys) \<and> 0 \<le> fst p \<and> fst p < SIZE
                          then ink4 (row_color (snd p)) else c0 p)"
    using p' p1 by auto
  ultimately show ?case by blast
qed

lemma paint_background_result:
  "\<exists>c'. paint_background c0 = Inr c' \<and>
     (\<forall>p. c' p = (if in_canvas p then ink4 (row_color (snd p)) else c0 p))"
proof -
  have "set (py_range SIZE) \<subseteq> {0..<SIZE}"
    by (simp add: set_py_range)
  from rows_loop [OF this, of c0] show ?thesis
    by (auto simp: paint_background_def set_py_range in_canvas_def)
qed

lemma uint_clip8: "0 \<le> v \<Longrightarrow> v \<le> 255 \<Longrightarrow> uint (clip8 v) = v"
  by (simp add: clip8_def uint_word_of_int take_bit_int_eq_self)

lemma row_color_eq:
  assumes "0 \<le> y"
  shows "row_color y = (5 + y div 128, 5 + y div 128, 12 + (9 * y) div 512, 255)"
proof -
  have a: "5 + real_of_int y / 1024 * 8 = real_of_int 5 + real_of_int y / real_of_int 128"
    by simp
  have b: "12 + real_of_int y / 1024 * 18 = real_of_int 12 + real_of_int (9 * y) / real_of_int 512"
    by simp
  have "\<lfloor>5 + real_of_int y / 1024 * 8\<rfloor> = 5 + y div 128"
    unfolding a int_add_floor [symmetric] floor_divide_of_int_eq ..
  moreover have "\<lfloor>12 + real_of_int y / 1024 * 18\<rfloor> = 12 + (9 * y) div 512"
    unfolding b int_add_floor [symmetric] floor_divide_of_int_eq ..
  moreover have "0 \<le> 5 + real_of_int y / 1024 * 8" "0 \<le> 12 + real_of_int y / 1024 * 18"
    using assms by simp_all
  ultimately show ?thesis
    by (simp add: row_color_def SIZE_def py_int_def Let_def)
qed

text \<open>
  C5. The background painter returns without error, and for every row \<open>y\<close> and column
  \<open>x\<close> of the canvas the pixel it leaves at \<open>(x, y)\<close> has the channels
  \<open>R = int(5 + 8 t)\<close>, \<open>G = int(5 + 8 t)\<close>, \<open>B = int(12 + 18 t)\<close> with \<open>t = y / 1024\<close>,
  and alpha 255; the value does not mention \<open>x\<close>.
\<close>

theorem background_pixels:
  "\<exists>c. paint_background (new_image (ink4 (0, 0, 0, 0))) = Inr c \<and>
     (\<forall>x y. 0 \<le> x \<and> x < 1024 \<and> 0 \<le> y \<and> y < 1024 \<longrightarrow>
        (\<exists>r g b a. c (x, y) = (r, g, b, a) \<and>
           uint r = py_int (5 + 8 * (real_of_int y / 1024)) \<and>
           uint g = py_int (5 + 8 * (real_of_int y / 1024)) \<and>
           uint b = py_int (12 + 18 * (real_of_int y / 1024)) \<and>
           uint a = 255))"
proof -
  from paint_background_result [of "new_image (ink4 (0, 0, 0, 0))"] obtain c where
    c: "paint_background (new_image (ink4 (0, 0, 0, 0))) = Inr c"
    and px: "\<forall>p. c p = (if in_canvas p then ink4 (row_color (snd p))
                          else new_image (ink4 (0, 0, 0, 0)) p)"
    by blast
  have "\<exists>r g b a. c (x, y) = (r, g, b, a) \<and>
           uint r = py_int (5 + 8 * (real_of_int y / 1024)) \<and>
           uint g = py_int (5 + 8 * (real_of_int y / 1024)) \<and>
           uint b = py_int (12 + 18 * (real_of_int y / 1024)) \<and>
           uint a = 255"
    if xy: "0 \<le> x \<and> x < 1024 \<and> 0 \<le> y \<and> y < 1024" for x y
  proof -
    have cv: "c (x, y) = ink4 (row_color y)"
      using px xy by (simp add: in_canvas_def SIZE_def)
    have y: "0 \<le> y" "y < 1024"
      using xy by simp_all
    have rc: "row_color y = (5 + y div 128, 5 + y div 128, 12 + (9 * y) div 512, 255)"
      using row_color_eq [OF y(1)] .
    have r1: "0 \<le> 5 + y div 128" "5 + y div 128 \<le> 255"
      using y by linarith+
    have b1: "0 \<le> 12 + (9 * y) div 512" "12 + (9 * y) div 512 \<le> 255"
      using y by linarith+
    have fr: "py_int (5 + 8 * (real_of_int y / 1024)) = 5 + y div 128"
      using rc by (simp add: row_color_def SIZE_def Let_def mult.commute)
    have fb: "py_int (12 + 18 * (real_of_int y / 1024)) = 12 + (9 * y) div 512"
      using rc by (simp add: row_color_def SIZE_def Let_def mult.commute)
    show ?thesis
      unfolding cv rc fr fb
      by (simp add: ink4_def uint_clip8 [OF r1] uint_clip8 [OF b1] uint_clip8)
  qed
  with c show ?thesis by blast
qed

theorem background_pixels_witness:
  "\<exists>c. paint_background (new_image (ink4 (0, 0, 0, 0))) = Inr c \<and>
     (\<exists>r g b a. c (3, 512) = (r, g, b, a) \<and> uint r = 9 \<and> uint g = 9 \<and> uint b = 21 \<and> uint a = 255)"
proof -
  from background_pixels obtain c where
    c: "paint_background (new_image (ink4 (0, 0, 0, 0))) = Inr c"
    and px: "\<forall>x y. 0 \<le> x \<and> x < 1024 \<and> 0 \<le> y \<and> y < 1024 \<longrightarrow>
        (\<exists>r g b a. c (x, y) = (r, g, b, a) \<and>
           uint r = py_int (5 + 8 * (real_of_int y / 1024)) \<and>
           uint g = py_int (5 + 8 * (real_of_int y / 1024)) \<and>
           uint b = py_int (12 + 18 * (real_of_int y / 1024)) \<and>
           uint a = 255)"
    by blast
  have "(0::int) \<le> 3 \<and> (3::int) < 1024 \<and> (0::int) \<le> 512 \<and> (512::int) < 1024"
    by simp
  with px have "\<exists>r g b a. c (3, 512) = (r, g, b, a) \<and>
           uint r = py_int (5 + 8 * (real_of_int 512 / 1024)) \<and>
           uint g = py_int (5 + 8 * (real_of_int 512 / 1024)) \<and>
           uint b = py_int (12 + 18 * (real_of_int 512 / 1024)) \<and>
           uint a = 255"
    by blast
  then have "\<exists>r g b a. c (3, 512) = (r, g, b, a) \<and> uint r = 9 \<and> uint g = 9 \<and> uint b = 21 \<and> uint a = 255"
    by (simp add: py_int_def)
  with c show ?thesis by blast
qed

section \<open>Bounds on the body-fill alpha\<close>

lemma exp_eighth_upper: "exp (1 / 8 :: real) \<le> 73 / 64"
proof -
  have "exp (1 / 8 :: real) \<le> 1 + 1 / 8 + (1 / 8)\<^sup>2"
    by (rule exp_bound) simp_all
  also have "\<dots> = 73 / 64"
    by (simp add: power2_eq_square)
  finally show ?thesis .
qed

lemma exp_eighth_lower: "145 / 128 \<le> exp (1 / 8 :: real)"
proof -
  have "1 + 1 / 8 + (1 / 8)\<^sup>2 / 2 \<le> exp (1 / 8 :: real)"
    by (rule exp_lower_Taylor_quadratic) simp
  then show ?thesis
    by (simp add: power2_eq_square)
qed

lemma exp_7_2_eq: "exp (7 / 2 :: real) = exp (1 / 8) ^ 28"
proof -
  have "exp (7 / 2 :: real) = exp (1 / 8 * of_nat 28)"
    by simp
  also have "\<dots> = exp (1 / 8) ^ 28"
    by (rule exp_of_nat2_mult)
  finally show ?thesis .
qed

lemma exp_7_2_upper: "exp (7 / 2 :: real) \<le> 42"
proof -
  have "exp (1 / 8 :: real) ^ 28 \<le> (73 / 64) ^ 28"
    by (rule power_mono [OF exp_eighth_upper]) simp
  also have "\<dots> \<le> (42 :: real)"
    by (simp add: power_divide)
  finally show ?thesis
    by (simp only: exp_7_2_eq)
qed

lemma exp_7_2_lower: "32 \<le> exp (7 / 2 :: real)"
proof -
  have "(32 :: real) \<le> (145 / 128) ^ 28"
    by (simp add: power_divide)
  also have "\<dots> \<le> exp (1 / 8 :: real) ^ 28"
    by (rule power_mono [OF exp_eighth_lower]) simp
  finally show ?thesis
    by (simp only: exp_7_2_eq)
qed

lemma exp_32nd_upper: "exp (1 / 32 :: real) \<le> 1057 / 1024"
proof -
  have "exp (1 / 32 :: real) \<le> 1 + 1 / 32 + (1 / 32)\<^sup>2"
    by (rule exp_bound) simp_all
  also have "\<dots> = 1057 / 1024"
    by (simp add: power2_eq_square)
  finally show ?thesis .
qed

lemma exp_32nd_lower: "2113 / 2048 \<le> exp (1 / 32 :: real)"
proof -
  have "1 + 1 / 32 + (1 / 32)\<^sup>2 / 2 \<le> exp (1 / 32 :: real)"
    by (rule exp_lower_Taylor_quadratic) simp
  then show ?thesis
    by (simp add: power2_eq_square)
qed

lemma exp_7_4_eq: "exp (7 / 4 :: real) = exp (1 / 32) ^ 56"
proof -
  have "exp (7 / 4 :: real) = exp (1 / 32 * of_nat 56)"
    by simp
  also have "\<dots> = exp (1 / 32) ^ 56"
    by (rule exp_of_nat2_mult)
  finally show ?thesis .
qed

lemma exp_7_4_upper: "exp (7 / 4 :: real) \<le> 6"
proof -
  have "exp (1 / 32 :: real) ^ 56 \<le> (1057 / 1024) ^ 56"
    by (rule power_mono [OF exp_32nd_upper]) simp
  also have "\<dots> \<le> (6 :: real)"
    by (simp add: power_divide)
  finally show ?thesis
    by (simp only: exp_7_4_eq)
qed

lemma exp_7_4_lower: "(11 / 2 :: real) \<le> exp (7 / 4)"
proof -
  have "(11 / 2 :: real) \<le> (2113 / 2048) ^ 56"
    by (simp add: power_divide)
  also have "\<dots> \<le> exp (1 / 32 :: real) ^ 56"
    by (rule power_mono [OF exp_32nd_lower]) simp
  finally show ?thesis
    by (simp only: exp_7_4_eq)
qed

lemma py_int_nonneg: "0 \<le> r \<Longrightarrow> py_int r = \<lfloor>r\<rfloor>"
  by (simp add: py_int_def)

lemma py_int_mono:
  assumes "r \<le> s"
  shows "py_int r \<le> py_int s"
proof (cases "0 \<le> r")
  case True
  with assms show ?thesis
    by (simp add: py_int_def floor_mono)
next
  case False
  show ?thesis
  proof (cases "0 \<le> s")
    case True
    have "py_int r = \<lceil>r\<rceil>" and "py_int s = \<lfloor>s\<rfloor>"
      using False True by (simp_all add: py_int_def)
    moreover have "\<lceil>r\<rceil> \<le> 0"
      using False by (simp add: ceiling_le_iff)
    moreover have "0 \<le> \<lfloor>s\<rfloor>"
      using True by simp
    ultimately show ?thesis
      by linarith
  next
    case s: False
    with False assms show ?thesis
      by (simp add: py_int_def ceiling_mono)
  qed
qed

lemma body_alpha_unfold:
  "body_alpha ec D dy =
     py_int (real_of_int (snd (snd (snd ec))) * (6 / 10) *
             exp (- (35 / 10) * (real_of_int dy / real_of_int D)))"
  unfolding body_alpha_def Let_def ..

lemma body_alpha_antimono:
  assumes "0 \<le> snd (snd (snd ec))" and "0 < D" and "d1 \<le> d2"
  shows "body_alpha ec D d2 \<le> body_alpha ec D d1"
proof -
  have "real_of_int d1 / real_of_int D \<le> real_of_int d2 / real_of_int D"
    using assms(2,3) by (simp add: divide_right_mono)
  then have "exp (- (35 / 10) * (real_of_int d2 / real_of_int D))
               \<le> exp (- (35 / 10) * (real_of_int d1 / real_of_int D))"
    by simp
  moreover have "0 \<le> real_of_int (snd (snd (snd ec))) * (6 / 10)"
    using assms(1) by simp
  ultimately have "real_of_int (snd (snd (snd ec))) * (6 / 10) *
                     exp (- (35 / 10) * (real_of_int d2 / real_of_int D))
                   \<le> real_of_int (snd (snd (snd ec))) * (6 / 10) *
                     exp (- (35 / 10) * (real_of_int d1 / real_of_int D))"
    by (rule mult_left_mono)
  then show ?thesis
    unfolding body_alpha_unfold by (rule py_int_mono)
qed

lemma body_alpha_at_depth:
  assumes "0 < D"
  shows "body_alpha ec D D = py_int (real_of_int (snd (snd (snd ec))) * (6 / 10) / exp (7 / 2))"
proof -
  have "real_of_int D / real_of_int D = 1"
    using assms by simp
  then have "exp (- (35 / 10) * (real_of_int D / real_of_int D)) = 1 / exp (7 / 2 :: real)"
    by (simp add: exp_minus inverse_eq_divide)
  then show ?thesis
    unfolding body_alpha_unfold by simp
qed

lemma body_alpha_ge_2:
  assumes "140 \<le> snd (snd (snd ec))" and "0 < D" and "d \<le> D"
  shows "2 \<le> body_alpha ec D d"
proof -
  have ea: "0 \<le> snd (snd (snd ec))"
    using assms(1) by simp
  have "(2 :: real) \<le> 84 / 42"
    by simp
  also have "\<dots> \<le> 84 / exp (7 / 2)"
    using exp_7_2_upper by (intro divide_left_mono) simp_all
  also have "\<dots> \<le> real_of_int (snd (snd (snd ec))) * (6 / 10) / exp (7 / 2)"
    using assms(1) by (intro divide_right_mono) simp_all
  finally have "2 \<le> \<lfloor>real_of_int (snd (snd (snd ec))) * (6 / 10) / exp (7 / 2)\<rfloor>"
    by (simp add: le_floor_iff)
  moreover have "0 \<le> real_of_int (snd (snd (snd ec))) * (6 / 10) / exp (7 / 2)"
    using ea by simp
  ultimately have "2 \<le> body_alpha ec D D"
    unfolding body_alpha_at_depth [OF assms(2)] by (simp add: py_int_def)
  also have "\<dots> \<le> body_alpha ec D d"
    by (rule body_alpha_antimono [OF ea assms(2,3)])
  finally show ?thesis .
qed

lemma body_alpha_140_at_depth: "body_alpha (100, 190, 235, 140) 200 200 = 2"
proof -
  have "(2 :: real) \<le> 84 / 42"
    by simp
  also have "\<dots> \<le> 84 / exp (7 / 2)"
    using exp_7_2_upper by (intro divide_left_mono) simp_all
  finally have lo: "2 \<le> 84 / exp (7 / 2 :: real)" .
  have "84 / exp (7 / 2 :: real) \<le> 84 / 32"
    using exp_7_2_lower by (intro divide_left_mono) simp_all
  also have "\<dots> < (3 :: real)"
    by simp
  finally have hi: "84 / exp (7 / 2 :: real) < 3" .
  have fl: "\<lfloor>84 / exp (7 / 2 :: real)\<rfloor> = 2"
    using lo hi by (simp add: floor_eq_iff)
  have "body_alpha (100, 190, 235, 140) 200 200 = py_int (84 / exp (7 / 2))"
    using body_alpha_at_depth [of 200 "(100, 190, 235, 140)"] by simp
  also have "\<dots> = \<lfloor>84 / exp (7 / 2 :: real)\<rfloor>"
    by (rule py_int_nonneg) simp
  finally show ?thesis
    using fl by simp
qed

section \<open>The stores of the body fill\<close>

lemma all_from_split:
  fixes k :: int
  assumes "k \<le> dy"
  shows "(\<forall>d. k \<le> d \<and> d \<le> dy \<and> I d \<longrightarrow> Q d) \<longleftrightarrow>
           (I k \<longrightarrow> Q k) \<and> (\<forall>d. k + 1 \<le> d \<and> d \<le> dy \<and> I d \<longrightarrow> Q d)"
proof
  assume a: "\<forall>d. k \<le> d \<and> d \<le> dy \<and> I d \<longrightarrow> Q d"
  show "(I k \<longrightarrow> Q k) \<and> (\<forall>d. k + 1 \<le> d \<and> d \<le> dy \<and> I d \<longrightarrow> Q d)"
  proof (intro conjI allI impI)
    assume "I k"
    with a assms show "Q k" by simp
  next
    fix d assume "k + 1 \<le> d \<and> d \<le> dy \<and> I d"
    then have "k \<le> d \<and> d \<le> dy \<and> I d" by simp
    with a show "Q d" by blast
  qed
next
  assume b: "(I k \<longrightarrow> Q k) \<and> (\<forall>d. k + 1 \<le> d \<and> d \<le> dy \<and> I d \<longrightarrow> Q d)"
  show "\<forall>d. k \<le> d \<and> d \<le> dy \<and> I d \<longrightarrow> Q d"
  proof (intro allI impI)
    fix d assume d: "k \<le> d \<and> d \<le> dy \<and> I d"
    show "Q d"
    proof (cases "d = k")
      case True
      with b d show ?thesis by simp
    next
      case False
      with d have "k + 1 \<le> d \<and> d \<le> dy \<and> I d" by simp
      with b show ?thesis by blast
    qed
  qed
qed

lemma column_hit_first:
  "column_hit ec bc D x wy k w k \<longleftrightarrow>
     k < D \<and> w = ((x, wy + k), (fst bc, fst (snd bc), snd (snd bc), body_alpha ec D k)) \<and>
     0 \<le> wy + k \<and> wy + k < SIZE \<and> 1 \<le> body_alpha ec D k"
proof -
  have "(\<forall>d. k \<le> d \<and> d \<le> k \<and> (0 \<le> wy + d \<and> wy + d < SIZE) \<longrightarrow> 1 \<le> body_alpha ec D d)
          \<longleftrightarrow> ((0 \<le> wy + k \<and> wy + k < SIZE) \<longrightarrow> 1 \<le> body_alpha ec D k)"
    using all_from_split [of k k "\<lambda>d. 0 \<le> wy + d \<and> wy + d < SIZE" "\<lambda>d. 1 \<le> body_alpha ec D d"]
    by auto
  then show ?thesis
    unfolding column_hit_def by (auto simp: prod_eq_iff)
qed

lemma column_hit_later:
  assumes "k + 1 \<le> dy"
  shows "column_hit ec bc D x wy k w dy \<longleftrightarrow>
     column_hit ec bc D x wy (k + 1) w dy \<and>
     ((0 \<le> wy + k \<and> wy + k < SIZE) \<longrightarrow> 1 \<le> body_alpha ec D k)"
proof -
  have "k \<le> dy" using assms by simp
  from all_from_split [OF this, of "\<lambda>d. 0 \<le> wy + d \<and> wy + d < SIZE" "\<lambda>d. 1 \<le> body_alpha ec D d"]
  show ?thesis
    unfolding column_hit_def using assms by auto
qed

lemma column_hit_split:
  "(\<exists>dy. column_hit ec bc D x wy k w dy) \<longleftrightarrow>
     column_hit ec bc D x wy k w k \<or>
     (((0 \<le> wy + k \<and> wy + k < SIZE) \<longrightarrow> 1 \<le> body_alpha ec D k) \<and>
      (\<exists>dy. column_hit ec bc D x wy (k + 1) w dy))"
proof
  assume "\<exists>dy. column_hit ec bc D x wy k w dy"
  then obtain dy where h: "column_hit ec bc D x wy k w dy" ..
  then have "k \<le> dy" by (simp add: column_hit_def)
  show "column_hit ec bc D x wy k w k \<or>
     (((0 \<le> wy + k \<and> wy + k < SIZE) \<longrightarrow> 1 \<le> body_alpha ec D k) \<and>
      (\<exists>dy. column_hit ec bc D x wy (k + 1) w dy))"
  proof (cases "dy = k")
    case True
    with h show ?thesis by simp
  next
    case False
    with \<open>k \<le> dy\<close> have "k + 1 \<le> dy" by simp
    from h column_hit_later [OF this] show ?thesis by blast
  qed
next
  assume r: "column_hit ec bc D x wy k w k \<or>
     (((0 \<le> wy + k \<and> wy + k < SIZE) \<longrightarrow> 1 \<le> body_alpha ec D k) \<and>
      (\<exists>dy. column_hit ec bc D x wy (k + 1) w dy))"
  then show "\<exists>dy. column_hit ec bc D x wy k w dy"
  proof
    assume "column_hit ec bc D x wy k w k"
    then show ?thesis ..
  next
    assume a: "((0 \<le> wy + k \<and> wy + k < SIZE) \<longrightarrow> 1 \<le> body_alpha ec D k) \<and>
      (\<exists>dy. column_hit ec bc D x wy (k + 1) w dy)"
    then obtain dy where h: "column_hit ec bc D x wy (k + 1) w dy" by blast
    then have "k + 1 \<le> dy" by (simp add: column_hit_def)
    from column_hit_later [OF this] h a show ?thesis by blast
  qed
qed

lemma body_column_upto:
  "w \<in> set (body_column ec bc D x wy [k..D - 1]) \<longleftrightarrow> (\<exists>dy. column_hit ec bc D x wy k w dy)"
proof (induction "nat (D - k)" arbitrary: k)
  case 0
  then have "[k..D - 1] = []" and "\<not> k < D"
    by simp_all
  then show ?case
    by (auto simp: column_hit_def)
next
  case (Suc n)
  then have k: "k < D" and n: "n = nat (D - (k + 1))"
    by linarith+
  have l: "[k..D - 1] = k # [k + 1..D - 1]"
    using k by (simp add: upto_rec1)
  note IH = Suc.hyps(1) [OF n]
  consider (out) "wy + k < 0 \<or> wy + k \<ge> SIZE"
    | (low) "0 \<le> wy + k" "wy + k < SIZE" "body_alpha ec D k < 1"
    | (wr) "0 \<le> wy + k" "wy + k < SIZE" "1 \<le> body_alpha ec D k"
    by linarith
  then show ?case
  proof cases
    case out
    then have "body_column ec bc D x wy [k..D - 1] = body_column ec bc D x wy [k + 1..D - 1]"
      unfolding l by (auto simp: Let_def)
    moreover have "\<not> column_hit ec bc D x wy k w k"
      using out by (auto simp: column_hit_first)
    moreover have "(0 \<le> wy + k \<and> wy + k < SIZE) \<longrightarrow> 1 \<le> body_alpha ec D k"
      using out by auto
    ultimately show ?thesis
      using IH column_hit_split [of ec bc D x wy k w] by simp
  next
    case low
    then have "body_column ec bc D x wy [k..D - 1] = []"
      unfolding l by (auto simp: Let_def)
    moreover have "\<not> column_hit ec bc D x wy k w k"
      using low by (auto simp: column_hit_first)
    moreover have "\<not> ((0 \<le> wy + k \<and> wy + k < SIZE) \<longrightarrow> 1 \<le> body_alpha ec D k)"
      using low by auto
    ultimately show ?thesis
      using column_hit_split [of ec bc D x wy k w] by simp
  next
    case wr
    then have "body_column ec bc D x wy [k..D - 1] =
        ((x, wy + k), (fst bc, fst (snd bc), snd (snd bc), body_alpha ec D k))
          # body_column ec bc D x wy [k + 1..D - 1]"
      unfolding l by (auto simp: Let_def)
    moreover have "column_hit ec bc D x wy k w k \<longleftrightarrow>
        w = ((x, wy + k), (fst bc, fst (snd bc), snd (snd bc), body_alpha ec D k))"
      using wr k by (auto simp: column_hit_first)
    moreover have "(0 \<le> wy + k \<and> wy + k < SIZE) \<longrightarrow> 1 \<le> body_alpha ec D k"
      using wr by auto
    ultimately show ?thesis
      using IH column_hit_split [of ec bc D x wy k w] by simp
  qed
qed

lemma body_column_range:
  "w \<in> set (body_column ec bc D x wy (py_range D)) \<longleftrightarrow> (\<exists>dy. column_hit ec bc D x wy 0 w dy)"
  unfolding py_range_def by (rule body_column_upto)

lemma body_writes_mem:
  "w \<in> set (body_writes yf ec bc D) \<longleftrightarrow>
     (\<exists>x dy. 0 \<le> x \<and> x < SIZE \<and> column_hit ec bc D x (py_int (yf x)) 0 w dy)"
  by (auto simp: body_writes_def body_column_range set_py_range)

lemma body_writes_in_canvas:
  assumes "w \<in> set (body_writes yf ec bc D)"
  shows "in_canvas (fst w)"
proof -
  from assms obtain x dy where "0 \<le> x" "x < SIZE" "column_hit ec bc D x (py_int (yf x)) 0 w dy"
    unfolding body_writes_mem by blast
  then show ?thesis
    by (simp add: column_hit_def in_canvas_def)
qed

lemma store_loop:
  assumes "\<forall>w \<in> set ws. in_canvas (fst w)"
  shows "\<exists>px'. for_each ws (\<lambda>w px. putpixel px (fst w) (ink4 (snd w))) px0 = Inr px' \<and>
           (\<forall>p. (p \<notin> fst ` set ws \<longrightarrow> px' p = px0 p) \<and>
                (p \<in> fst ` set ws \<longrightarrow> (\<exists>v. (p, v) \<in> set ws \<and> px' p = ink4 v)))"
  using assms
proof (induction ws arbitrary: px0)
  case Nil
  then show ?case by simp
next
  case (Cons w ws)
  obtain q u where w: "w = (q, u)"
    by (cases w)
  from Cons.prems have q: "in_canvas q" and rest: "\<forall>w \<in> set ws. in_canvas (fst w)"
    by (simp_all add: w)
  have put: "putpixel px0 q (ink4 u) = Inr (px0(q := ink4 u))"
    using q putpixel_in_canvas [of "fst q" "snd q" px0 "ink4 u"]
    by (simp add: in_canvas_def)
  from Cons.IH [OF rest, of "px0(q := ink4 u)"] obtain px' where
    run: "for_each ws (\<lambda>w px. putpixel px (fst w) (ink4 (snd w))) (px0(q := ink4 u)) = Inr px'"
    and px: "\<forall>p. (p \<notin> fst ` set ws \<longrightarrow> px' p = (px0(q := ink4 u)) p) \<and>
                (p \<in> fst ` set ws \<longrightarrow> (\<exists>v. (p, v) \<in> set ws \<and> px' p = ink4 v))"
    by blast
  have "for_each (w # ws) (\<lambda>w px. putpixel px (fst w) (ink4 (snd w))) px0 = Inr px'"
    using put run by (simp add: w)
  moreover have "(p \<notin> fst ` set (w # ws) \<longrightarrow> px' p = px0 p) \<and>
                (p \<in> fst ` set (w # ws) \<longrightarrow> (\<exists>v. (p, v) \<in> set (w # ws) \<and> px' p = ink4 v))" for p
  proof (cases "p \<in> fst ` set ws")
    case True
    with px obtain v where "(p, v) \<in> set ws" "px' p = ink4 v"
      by blast
    then have "\<exists>v. (p, v) \<in> set (w # ws) \<and> px' p = ink4 v"
      by (intro exI [of _ v]) simp
    moreover have "p \<in> fst ` set (w # ws)"
      using True by simp
    ultimately show ?thesis
      by blast
  next
    case False
    with px have eq: "px' p = (px0(q := ink4 u)) p"
      by blast
    show ?thesis
    proof (cases "p = q")
      case True
      then have "(p, u) \<in> set (w # ws)" "px' p = ink4 u"
        using eq by (simp_all add: w)
      then have "\<exists>v. (p, v) \<in> set (w # ws) \<and> px' p = ink4 v"
        by blast
      moreover have "p \<in> fst ` set (w # ws)"
        using True by (simp add: w)
      ultimately show ?thesis
        by blast
    next
      case neq: False
      then have "px' p = px0 p" "p \<notin> fst ` set (w # ws)"
        using eq False by (simp_all add: w)
      then show ?thesis
        by blast
    qed
  qed
  ultimately show ?case by blast
qed

lemma body_layer_result:
  "\<exists>layer. body_layer yf ec bc D = Inr layer \<and>
     (\<forall>p. (p \<notin> fst ` set (body_writes yf ec bc D) \<longrightarrow> layer p = ink4 (0, 0, 0, 0)) \<and>
          (p \<in> fst ` set (body_writes yf ec bc D) \<longrightarrow>
             (\<exists>v. (p, v) \<in> set (body_writes yf ec bc D) \<and> layer p = ink4 v)))"
proof -
  have "\<forall>w \<in> set (body_writes yf ec bc D). in_canvas (fst w)"
    using body_writes_in_canvas by blast
  from store_loop [OF this, of "new_image (ink4 (0, 0, 0, 0))"]
  show ?thesis
    unfolding body_layer_def by (simp add: new_image_def)
qed

lemma body_column_full_eq:
  assumes "\<forall>dy \<in> set dys. 1 \<le> body_alpha ec D dy"
  shows "body_column ec bc D x wy dys = body_column_full ec bc D x wy dys"
  using assms by (induction dys) (auto simp: Let_def)

lemma waves_edge_alpha:
  assumes "w \<in> set waves"
  shows "140 \<le> snd (snd (snd (edge w)))" and "0 < depth w" and "0 \<le> amplitude w"
  using assms by (auto simp: waves_def)

section \<open>The wave height function\<close>

lemma wave_y_bounds:
  assumes "0 \<le> amp"
  shows "base - amp \<le> wave_y x base amp fr ph" and "wave_y x base amp fr ph \<le> base + amp"
proof -
  have "amp * sin (fr * x + ph) \<le> amp * 1"
    using assms by (intro mult_left_mono) simp_all
  then show "wave_y x base amp fr ph \<le> base + amp"
    by (simp add: wave_y_def)
  have "amp * (- 1) \<le> amp * sin (fr * x + ph)"
    using assms by (intro mult_left_mono) simp_all
  then show "base - amp \<le> wave_y x base amp fr ph"
    by (simp add: wave_y_def)
qed

text \<open>
  C4. For each of the five wave descriptors and every column \<open>x\<close> of the canvas, the
  wave height \<open>base_y + amplitude * sin (freq * x + phase)\<close> lies between
  \<open>base_y - amplitude\<close> and \<open>base_y + amplitude\<close>. The height is a function of the
  descriptor and \<open>x\<close> alone: \<open>wave_y\<close> reads and keeps no state.
\<close>

theorem wave_height_bounded:
  assumes "w \<in> set waves" and "0 \<le> x" and "x < SIZE"
  shows "real_of_int (base_y w) - real_of_int (amplitude w)
           \<le> wave_y (real_of_int x) (real_of_int (base_y w)) (real_of_int (amplitude w)) (freq w) (phase w)
         \<and> wave_y (real_of_int x) (real_of_int (base_y w)) (real_of_int (amplitude w)) (freq w) (phase w)
           \<le> real_of_int (base_y w) + real_of_int (amplitude w)"
proof -
  have "0 \<le> real_of_int (amplitude w)"
    using waves_edge_alpha(3) [OF assms(1)] by simp
  from wave_y_bounds [OF this] show ?thesis
    by blast
qed

theorem wave_height_bounded_witness:
  "\<lparr>base_y = 300, amplitude = 25, freq = 6 / 1000, phase = 8 / 10,
     edge = (100, 190, 235, 140), body = (25, 60, 100), depth = 200, blur = 10\<rparr> \<in> set waves
   \<and> (0 :: int) \<le> 17 \<and> 17 < SIZE
   \<and> 275 \<le> wave_y 17 300 25 (6 / 1000) (8 / 10)
   \<and> wave_y 17 300 25 (6 / 1000) (8 / 10) \<le> 325"
proof -
  let ?w = "\<lparr>base_y = 300, amplitude = 25, freq = 6 / 1000, phase = 8 / 10,
     edge = (100, 190, 235, 140), body = (25, 60, 100), depth = 200, blur = 10\<rparr>"
  have m: "?w \<in> set waves"
    by (simp add: waves_def)
  have x: "(0 :: int) \<le> 17" "17 < SIZE"
    by (simp_all add: SIZE_def)
  from wave_height_bounded [OF m x] m x show ?thesis
    by simp
qed

section \<open>The body fill: alpha decay, skipped rows and early exit\<close>

lemma body_alpha_zero:
  assumes "0 \<le> snd (snd (snd ec))"
  shows "body_alpha ec D 0 = (snd (snd (snd ec)) * 6) div 10"
proof -
  have "body_alpha ec D 0 = py_int (real_of_int (snd (snd (snd ec)) * 6) / real_of_int 10)"
    unfolding body_alpha_unfold by (simp add: mult.commute)
  also have "\<dots> = \<lfloor>real_of_int (snd (snd (snd ec)) * 6) / real_of_int 10\<rfloor>"
    using assms by (intro py_int_nonneg) simp
  also have "\<dots> = (snd (snd (snd ec)) * 6) div 10"
    by (rule floor_divide_of_int_eq)
  finally show ?thesis .
qed

lemma waves_alpha_ge_2:
  assumes "v \<in> set waves" and "d \<le> depth v"
  shows "2 \<le> body_alpha (edge v) (depth v) d"
  using body_alpha_ge_2 [OF waves_edge_alpha(1,2) [OF assms(1)] assms(2)] .

lemma body_writes_store:
  assumes "w \<in> set (body_writes yf ec bc D)"
  shows "\<exists>x d. 0 \<le> x \<and> x < SIZE \<and> 0 \<le> d \<and> d < D \<and> fst w = (x, py_int (yf x) + d) \<and>
           snd w = (fst bc, fst (snd bc), snd (snd bc), body_alpha ec D d)"
proof -
  from assms obtain x dy where "0 \<le> x" "x < SIZE" "column_hit ec bc D x (py_int (yf x)) 0 w dy"
    unfolding body_writes_mem by blast
  then show ?thesis
    unfolding column_hit_def by blast
qed

lemma first_wave_store:
  "((0, 300), (25, 60, 100, 84)) \<in> set (body_writes (\<lambda>x. 300) (100, 190, 235, 140) (25, 60, 100) 200)"
proof -
  have a: "body_alpha (100, 190, 235, 140) 200 0 = 84"
    by (simp add: body_alpha_zero)
  have "column_hit (100, 190, 235, 140) (25, 60, 100) 200 0 300 0 ((0, 300), (25, 60, 100, 84)) 0"
    unfolding column_hit_first a by (simp add: SIZE_def)
  moreover have "py_int ((\<lambda>x. 300) (0 :: int)) = 300"
    by (simp add: py_int_def)
  ultimately have "\<exists>x dy. 0 \<le> x \<and> x < SIZE \<and>
      column_hit (100, 190, 235, 140) (25, 60, 100) 200 x (py_int ((\<lambda>x. 300) x)) 0
        ((0, 300), (25, 60, 100, 84)) dy"
    by (intro exI [of _ 0]) (simp add: SIZE_def)
  then show ?thesis
    unfolding body_writes_mem .
qed

lemma body_layer_pixel:
  assumes "(p, v) \<in> set (body_writes yf ec bc D)" and "body_layer yf ec bc D = Inr b"
  shows "b p = ink4 v"
proof -
  from body_layer_result [of yf ec bc D] obtain b' where
    "body_layer yf ec bc D = Inr b'"
    and "\<forall>p. p \<in> fst ` set (body_writes yf ec bc D) \<longrightarrow>
       (\<exists>v'. (p, v') \<in> set (body_writes yf ec bc D) \<and> b' p = ink4 v')"
    by blast
  with assms(2) have
    "p \<in> fst ` set (body_writes yf ec bc D) \<longrightarrow>
       (\<exists>v'. (p, v') \<in> set (body_writes yf ec bc D) \<and> b p = ink4 v')"
    by (metis sum.inject(2))
  moreover have "p \<in> fst ` set (body_writes yf ec bc D)"
    using assms(1) by force
  ultimately obtain v' where v': "(p, v') \<in> set (body_writes yf ec bc D)" "b p = ink4 v'"
    by blast
  from body_writes_store [OF assms(1)] obtain x d where
    a: "p = (x, py_int (yf x) + d)" "v = (fst bc, fst (snd bc), snd (snd bc), body_alpha ec D d)"
    by auto
  from body_writes_store [OF v'(1)] obtain x' d' where
    b: "p = (x', py_int (yf x') + d')" "v' = (fst bc, fst (snd bc), snd (snd bc), body_alpha ec D d')"
    by auto
  from a(1) b(1) have "x' = x"
    by simp
  with a(1) b(1) have "d' = d"
    by simp
  with a(2) b(2) v'(2) \<open>x' = x\<close> show ?thesis
    by simp
qed

lemma exp_111_32_lower: "32 \<le> exp (111 / 32 :: real)"
proof -
  have "exp (111 / 32 :: real) = exp (1 / 32 * of_nat 111)"
    by simp
  also have "\<dots> = exp (1 / 32) ^ 111"
    by (rule exp_of_nat2_mult)
  finally have e: "exp (111 / 32 :: real) = exp (1 / 32) ^ 111" .
  have "(32 :: real) \<le> (2113 / 2048) ^ 111"
    by (simp add: power_divide)
  also have "\<dots> \<le> exp (1 / 32 :: real) ^ 111"
    by (rule power_mono [OF exp_32nd_lower]) simp
  finally show ?thesis
    by (simp only: e)
qed

lemma exp_last_depth_bounds:
  "32 \<le> exp (1393 / 400 :: real)" "exp (1393 / 400 :: real) \<le> 42"
proof -
  have "exp (111 / 32 :: real) \<le> exp (1393 / 400)"
    by simp
  with exp_111_32_lower show "32 \<le> exp (1393 / 400 :: real)"
    by linarith
  have "exp (1393 / 400 :: real) \<le> exp (7 / 2)"
    by simp
  with exp_7_2_upper show "exp (1393 / 400 :: real) \<le> 42"
    by linarith
qed

lemma body_alpha_last_depth:
  "body_alpha ec 200 199 = py_int (real_of_int (snd (snd (snd ec))) * (6 / 10) / exp (1393 / 400))"
proof -
  have "exp (- (35 / 10) * (real_of_int 199 / real_of_int 200)) = 1 / exp (1393 / 400 :: real)"
    by (simp add: exp_minus inverse_eq_divide)
  then show ?thesis
    unfolding body_alpha_unfold by simp
qed

lemma body_alpha_140_last: "body_alpha (100, 190, 235, 140) 200 199 = 2"
proof -
  have "(2 :: real) \<le> 84 / 42"
    by simp
  also have "\<dots> \<le> 84 / exp (1393 / 400)"
    using exp_last_depth_bounds by (intro divide_left_mono) simp_all
  finally have lo: "2 \<le> 84 / exp (1393 / 400 :: real)" .
  have "84 / exp (1393 / 400 :: real) \<le> 84 / 32"
    using exp_last_depth_bounds by (intro divide_left_mono) simp_all
  also have "\<dots> < (3 :: real)"
    by simp
  finally have hi: "84 / exp (1393 / 400 :: real) < 3" .
  have fl: "\<lfloor>84 / exp (1393 / 400 :: real)\<rfloor> = 2"
    using lo hi by (simp add: floor_eq_iff)
  have "body_alpha (100, 190, 235, 140) 200 199 = py_int (84 / exp (1393 / 400))"
    unfolding body_alpha_last_depth by simp
  also have "\<dots> = \<lfloor>84 / exp (1393 / 400 :: real)\<rfloor>"
    by (rule py_int_nonneg) simp
  finally show ?thesis
    using fl by simp
qed

lemma body_alpha_100_last: "body_alpha (100, 190, 235, 100) 200 199 = 1"
proof -
  have "(1 :: real) \<le> 60 / 42"
    by simp
  also have "\<dots> \<le> 60 / exp (1393 / 400)"
    using exp_last_depth_bounds by (intro divide_left_mono) simp_all
  finally have lo: "1 \<le> 60 / exp (1393 / 400 :: real)" .
  have "60 / exp (1393 / 400 :: real) \<le> 60 / 32"
    using exp_last_depth_bounds by (intro divide_left_mono) simp_all
  also have "\<dots> < (2 :: real)"
    by simp
  finally have hi: "60 / exp (1393 / 400 :: real) < 2" .
  have fl: "\<lfloor>60 / exp (1393 / 400 :: real)\<rfloor> = 1"
    using lo hi by (simp add: floor_eq_iff)
  have "body_alpha (100, 190, 235, 100) 200 199 = py_int (60 / exp (1393 / 400))"
    unfolding body_alpha_last_depth by simp
  also have "\<dots> = \<lfloor>60 / exp (1393 / 400 :: real)\<rfloor>"
    by (rule py_int_nonneg) simp
  finally show ?thesis
    using fl by simp
qed

lemma py_int_between:
  assumes "real_of_int a \<le> r" and "r \<le> real_of_int b"
  shows "a \<le> py_int r" and "py_int r \<le> b"
proof -
  have "a \<le> \<lfloor>r\<rfloor>" "\<lfloor>r\<rfloor> \<le> b" "a \<le> \<lceil>r\<rceil>" "\<lceil>r\<rceil> \<le> b"
    using assms by (simp_all add: le_floor_iff ceiling_le_iff) linarith+
  then show "a \<le> py_int r" and "py_int r \<le> b"
    by (simp_all add: py_int_def)
qed

lemma waves_geometry:
  assumes "w \<in> set waves"
  shows "0 \<le> base_y w - amplitude w" and "base_y w + amplitude w + depth w \<le> SIZE"
    and "snd (snd (snd (edge w))) \<le> 255"
  using assms by (auto simp: waves_def SIZE_def)

lemma waves_crest_rows:
  assumes "w \<in> set waves"
  shows "0 \<le> py_int (y_func w x)" and "py_int (y_func w x) + depth w \<le> SIZE"
proof -
  have amp: "0 \<le> real_of_int (amplitude w)"
    using waves_edge_alpha(3) [OF assms] by simp
  have lo: "real_of_int (base_y w - amplitude w) \<le> y_func w x"
    and hi: "y_func w x \<le> real_of_int (base_y w + amplitude w)"
    using wave_y_bounds [OF amp, where base = "real_of_int (base_y w)" and x = "real_of_int x"
        and fr = "freq w" and ph = "phase w"]
    by (simp_all add: y_func_def)
  from py_int_between [OF lo hi] waves_geometry(1,2) [OF assms]
  show "0 \<le> py_int (y_func w x)" and "py_int (y_func w x) + depth w \<le> SIZE"
    by linarith+
qed

lemma waves_store:
  assumes w: "w \<in> set waves" and x: "0 \<le> x" "x < SIZE" and d: "0 \<le> d" "d < depth w"
  shows "((x, py_int (y_func w x) + d),
          (fst (body w), fst (snd (body w)), snd (snd (body w)), body_alpha (edge w) (depth w) d))
           \<in> set (body_writes (y_func w) (edge w) (body w) (depth w))"
proof -
  let ?wy = "py_int (y_func w x)"
  have rows: "0 \<le> ?wy + d" "?wy + d < SIZE"
    using waves_crest_rows [OF w, of x] d by linarith+
  have ge: "1 \<le> body_alpha (edge w) (depth w) d'" if "d' \<le> d" for d'
    using waves_alpha_ge_2 [OF w, of d'] that d by simp
  have "column_hit (edge w) (body w) (depth w) x ?wy 0
          ((x, ?wy + d),
           (fst (body w), fst (snd (body w)), snd (snd (body w)), body_alpha (edge w) (depth w) d)) d"
    unfolding column_hit_def using rows d ge by simp
  with x show ?thesis
    unfolding body_writes_mem by blast
qed

lemma body_alpha_byte:
  assumes "0 \<le> snd (snd (snd ec))" and "snd (snd (snd ec)) \<le> 255" and "0 < D" and "0 \<le> d"
  shows "0 \<le> body_alpha ec D d" and "body_alpha ec D d \<le> 255"
proof -
  have "0 \<le> real_of_int (snd (snd (snd ec))) * (6 / 10) *
              exp (- (35 / 10) * (real_of_int d / real_of_int D))"
    using assms(1) by simp
  then show "0 \<le> body_alpha ec D d"
    unfolding body_alpha_unfold by (simp add: py_int_def)
  have "body_alpha ec D d \<le> body_alpha ec D 0"
    by (rule body_alpha_antimono [OF assms(1,3,4)])
  also have "\<dots> = (snd (snd (snd ec)) * 6) div 10"
    by (rule body_alpha_zero [OF assms(1)])
  also have "\<dots> \<le> 255"
    using assms(2) by linarith
  finally show "body_alpha ec D d \<le> 255" .
qed

lemma waves_body_pixel:
  assumes w: "w \<in> set waves" and x: "0 \<le> x" "x < SIZE" and d: "0 \<le> d" "d < depth w"
  shows "\<exists>b. body_layer (y_func w) (edge w) (body w) (depth w) = Inr b \<and>
           b (x, py_int (y_func w x) + d) =
             ink4 (fst (body w), fst (snd (body w)), snd (snd (body w)),
                   body_alpha (edge w) (depth w) d) \<and>
           uint (alpha_of (b (x, py_int (y_func w x) + d))) = body_alpha (edge w) (depth w) d"
proof -
  from body_layer_result [of "y_func w" "edge w" "body w" "depth w"] obtain b where
    b: "body_layer (y_func w) (edge w) (body w) (depth w) = Inr b"
    by blast
  have px: "b (x, py_int (y_func w x) + d) =
      ink4 (fst (body w), fst (snd (body w)), snd (snd (body w)), body_alpha (edge w) (depth w) d)"
    by (rule body_layer_pixel [OF waves_store [OF w x d] b])
  have ea: "0 \<le> snd (snd (snd (edge w)))"
    using waves_edge_alpha(1) [OF w] by simp
  have "uint (clip8 (body_alpha (edge w) (depth w) d)) = body_alpha (edge w) (depth w) d"
    using body_alpha_byte [OF ea waves_geometry(3) [OF w] waves_edge_alpha(2) [OF w] d(1)]
    by (intro uint_clip8)
  then have "uint (alpha_of (b (x, py_int (y_func w x) + d))) = body_alpha (edge w) (depth w) d"
    unfolding px by (simp add: ink4_def alpha_of_def)
  with b px show ?thesis
    by blast
qed

text \<open>
  C1, as amended. For each of the five wave descriptors, every column \<open>x\<close> of the canvas
  and every depth \<open>d\<close> of \<open>range(bloom_depth)\<close>, the body fill stores at the pixel
  \<open>(x, int(y(x)) + d)\<close> the body colour with the alpha
  \<open>int(edge_alpha * 0.6 * exp(-3.5 * d / bloom_depth))\<close>, and that is the alpha of the
  pixel in the finished body layer. For any descriptor, every store of the body fill has
  this form. For a non-negative edge alpha the alpha is non-increasing in \<open>d\<close>. It does
  not drop below the floor of 1: for the five wave descriptors it is 2 or more at every
  depth from 0 up to and including \<open>bloom_depth\<close>.
\<close>

theorem body_fill_alpha_decay:
  "(v \<in> set waves \<and> 0 \<le> x \<and> x < SIZE \<and> 0 \<le> d \<and> d < depth v \<longrightarrow>
      (\<exists>b a. a = py_int (real_of_int (snd (snd (snd (edge v)))) * (6 / 10) *
                        exp (- (35 / 10) * (real_of_int d / real_of_int (depth v)))) \<and>
         ((x, py_int (y_func v x) + d), (fst (body v), fst (snd (body v)), snd (snd (body v)), a))
            \<in> set (body_writes (y_func v) (edge v) (body v) (depth v)) \<and>
         body_layer (y_func v) (edge v) (body v) (depth v) = Inr b \<and>
         b (x, py_int (y_func v x) + d) =
           ink4 (fst (body v), fst (snd (body v)), snd (snd (body v)), a) \<and>
         uint (alpha_of (b (x, py_int (y_func v x) + d))) = a))
   \<and> (w \<in> set (body_writes yf ec bc D) \<longrightarrow>
        (\<exists>x d. 0 \<le> x \<and> x < SIZE \<and> 0 \<le> d \<and> d < D \<and> fst w = (x, py_int (yf x) + d) \<and>
           snd w = (fst bc, fst (snd bc), snd (snd bc),
                    py_int (real_of_int (snd (snd (snd ec))) * (6 / 10) *
                            exp (- (35 / 10) * (real_of_int d / real_of_int D))))))
   \<and> (0 \<le> snd (snd (snd ec)) \<and> 0 < D \<and> d1 \<le> d2 \<longrightarrow> body_alpha ec D d2 \<le> body_alpha ec D d1)
   \<and> (v \<in> set waves \<and> 0 \<le> d' \<and> d' \<le> depth v \<longrightarrow> 2 \<le> body_alpha (edge v) (depth v) d')"
proof (intro conjI impI)
  assume a: "v \<in> set waves \<and> 0 \<le> x \<and> x < SIZE \<and> 0 \<le> d \<and> d < depth v"
  then have v: "v \<in> set waves" and x: "0 \<le> x" "x < SIZE" and d: "0 \<le> d" "d < depth v"
    by simp_all
  from waves_body_pixel [OF v x d] obtain b where
    "body_layer (y_func v) (edge v) (body v) (depth v) = Inr b"
    "b (x, py_int (y_func v x) + d) =
       ink4 (fst (body v), fst (snd (body v)), snd (snd (body v)),
             body_alpha (edge v) (depth v) d)"
    "uint (alpha_of (b (x, py_int (y_func v x) + d))) = body_alpha (edge v) (depth v) d"
    by blast
  with waves_store [OF v x d] show
    "\<exists>b a. a = py_int (real_of_int (snd (snd (snd (edge v)))) * (6 / 10) *
                        exp (- (35 / 10) * (real_of_int d / real_of_int (depth v)))) \<and>
         ((x, py_int (y_func v x) + d), (fst (body v), fst (snd (body v)), snd (snd (body v)), a))
            \<in> set (body_writes (y_func v) (edge v) (body v) (depth v)) \<and>
         body_layer (y_func v) (edge v) (body v) (depth v) = Inr b \<and>
         b (x, py_int (y_func v x) + d) =
           ink4 (fst (body v), fst (snd (body v)), snd (snd (body v)), a) \<and>
         uint (alpha_of (b (x, py_int (y_func v x) + d))) = a"
    unfolding body_alpha_unfold by blast
next
  assume "w \<in> set (body_writes yf ec bc D)"
  from body_writes_store [OF this] show
    "\<exists>x d. 0 \<le> x \<and> x < SIZE \<and> 0 \<le> d \<and> d < D \<and> fst w = (x, py_int (yf x) + d) \<and>
         snd w = (fst bc, fst (snd bc), snd (snd bc),
                  py_int (real_of_int (snd (snd (snd ec))) * (6 / 10) *
                          exp (- (35 / 10) * (real_of_int d / real_of_int D))))"
    unfolding body_alpha_unfold .
next
  assume "0 \<le> snd (snd (snd ec)) \<and> 0 < D \<and> d1 \<le> d2"
  then show "body_alpha ec D d2 \<le> body_alpha ec D d1"
    using body_alpha_antimono by blast
next
  assume "v \<in> set waves \<and> 0 \<le> d' \<and> d' \<le> depth v"
  then show "2 \<le> body_alpha (edge v) (depth v) d'"
    using waves_alpha_ge_2 by blast
qed

text \<open>
  C1 as stated fails for the first wave descriptor (edge alpha 140, depth 200): at the
  last depth of the loop, \<open>d = 199\<close>, and at \<open>d = bloom_depth\<close>, where the alpha is
  smallest, it is still 2, above the floor of 1.
\<close>

theorem body_alpha_floor_counterexample:
  "body_alpha (100, 190, 235, 140) 200 199 = 2 \<and> body_alpha (100, 190, 235, 140) 200 200 = 2"
  using body_alpha_140_last body_alpha_140_at_depth by (rule conjI)

theorem body_fill_alpha_decay_witness:
  "\<lparr>base_y = 300, amplitude = 25, freq = 6 / 1000, phase = 8 / 10,
        edge = (100, 190, 235, 140), body = (25, 60, 100), depth = 200, blur = 10\<rparr> \<in> set waves
   \<and> (\<exists>b. ((17, py_int (wave_y 17 300 25 (6 / 1000) (8 / 10)) + 199), (25, 60, 100, 2))
            \<in> set (body_writes (\<lambda>x. wave_y (real_of_int x) 300 25 (6 / 1000) (8 / 10))
                    (100, 190, 235, 140) (25, 60, 100) 200) \<and>
         body_layer (\<lambda>x. wave_y (real_of_int x) 300 25 (6 / 1000) (8 / 10))
           (100, 190, 235, 140) (25, 60, 100) 200 = Inr b \<and>
         uint (alpha_of (b (17, py_int (wave_y 17 300 25 (6 / 1000) (8 / 10)) + 199))) = 2)
   \<and> ((0, 300), (25, 60, 100, 84)) \<in> set (body_writes (\<lambda>x. 300) (100, 190, 235, 140) (25, 60, 100) 200)
   \<and> (\<exists>x d. 0 \<le> x \<and> x < SIZE \<and> 0 \<le> d \<and> d < 200 \<and> (0, 300) = (x, py_int 300 + d) \<and>
         (84 :: int) = py_int (84 * exp (- (35 / 10) * (real_of_int d / 200))))
   \<and> body_alpha (100, 190, 235, 140) 200 200 \<le> body_alpha (100, 190, 235, 140) 200 0
   \<and> 2 \<le> body_alpha (100, 190, 235, 140) 200 200"
proof -
  let ?w = "((0, 300), (25, 60, 100, 84)) :: (int \<times> int) \<times> color4"
  let ?ec = "(100, 190, 235, 140) :: color4"
  let ?bc = "(25, 60, 100) :: color3"
  let ?v = "\<lparr>base_y = 300, amplitude = 25, freq = 6 / 1000, phase = 8 / 10,
        edge = (100, 190, 235, 140), body = (25, 60, 100), depth = 200, blur = 10\<rparr>"
  note inst = body_fill_alpha_decay [of ?v 17 199 ?w "\<lambda>x. 300" ?ec ?bc 200 0 200 200]
  have mem: "?w \<in> set (body_writes (\<lambda>x. 300) ?ec ?bc 200)"
    by (rule first_wave_store)
  have v: "?v \<in> set waves"
    by (simp add: waves_def)
  have y: "y_func ?v = (\<lambda>x. wave_y (real_of_int x) 300 25 (6 / 1000) (8 / 10))"
    by (rule ext) (simp add: y_func_def)
  have a: "py_int (real_of_int (snd (snd (snd ?ec))) * (6 / 10) *
                   exp (- (35 / 10) * (real_of_int 199 / real_of_int 200))) = 2"
    using body_alpha_140_last unfolding body_alpha_unfold .
  have "(17 :: int) < SIZE"
    by (simp add: SIZE_def)
  with inst v have "\<exists>b a. a = py_int (real_of_int (snd (snd (snd ?ec))) * (6 / 10) *
                        exp (- (35 / 10) * (real_of_int 199 / real_of_int 200))) \<and>
         ((17, py_int (y_func ?v 17) + 199), (25, 60, 100, a))
            \<in> set (body_writes (y_func ?v) ?ec ?bc 200) \<and>
         body_layer (y_func ?v) ?ec ?bc 200 = Inr b \<and>
         b (17, py_int (y_func ?v 17) + 199) = ink4 (25, 60, 100, a) \<and>
         uint (alpha_of (b (17, py_int (y_func ?v 17) + 199))) = a"
    by simp
  then have c0: "\<exists>b. ((17, py_int (wave_y 17 300 25 (6 / 1000) (8 / 10)) + 199), (25, 60, 100, 2))
            \<in> set (body_writes (\<lambda>x. wave_y (real_of_int x) 300 25 (6 / 1000) (8 / 10)) ?ec ?bc 200) \<and>
         body_layer (\<lambda>x. wave_y (real_of_int x) 300 25 (6 / 1000) (8 / 10)) ?ec ?bc 200 = Inr b \<and>
         uint (alpha_of (b (17, py_int (wave_y 17 300 25 (6 / 1000) (8 / 10)) + 199))) = 2"
    unfolding a y by auto
  from inst mem have c1: "\<exists>x d. 0 \<le> x \<and> x < SIZE \<and> 0 \<le> d \<and> d < 200 \<and> (0, 300) = (x, py_int 300 + d) \<and>
         (84 :: int) = py_int (84 * exp (- (35 / 10) * (real_of_int d / 200)))"
    by simp
  from inst have c2: "body_alpha ?ec 200 200 \<le> body_alpha ?ec 200 0"
    by simp
  from inst v have c4: "2 \<le> body_alpha ?ec 200 200"
    by simp
  from v c0 mem c1 c2 c4 show ?thesis
    by blast
qed

text \<open>
  C6. In the column loop a row outside the canvas is skipped and the loop goes on with
  the next depth, while an alpha below 1 ends the column. So the loop over
  \<open>range(bloom_depth)\<close> stores at depth \<open>dy\<close> exactly when row \<open>wy + dy\<close> is inside the
  canvas and no row inside the canvas at a depth up to \<open>dy\<close> had an alpha below 1. Every
  store of the body fill targets a pixel of the canvas, and the fill raises no
  \<open>IndexError\<close>.
\<close>

theorem body_fill_skip_and_break:
  "(w \<in> set (body_column ec bc D x wy (py_range D)) \<longleftrightarrow>
      (\<exists>dy. 0 \<le> dy \<and> dy < D \<and> fst w = (x, wy + dy) \<and> 0 \<le> wy + dy \<and> wy + dy < SIZE \<and>
         snd w = (fst bc, fst (snd bc), snd (snd bc), body_alpha ec D dy) \<and>
         (\<forall>d. 0 \<le> d \<and> d \<le> dy \<and> (0 \<le> wy + d \<and> wy + d < SIZE) \<longrightarrow> 1 \<le> body_alpha ec D d)))
   \<and> (wy + dy' < 0 \<or> SIZE \<le> wy + dy' \<longrightarrow>
        body_column ec bc D x wy (dy' # dys) = body_column ec bc D x wy dys)
   \<and> (0 \<le> wy + dy' \<and> wy + dy' < SIZE \<and> body_alpha ec D dy' < 1 \<longrightarrow>
        body_column ec bc D x wy (dy' # dys) = [])
   \<and> (w' \<in> set (body_writes yf ec bc D) \<longrightarrow> in_canvas (fst w'))
   \<and> (\<exists>layer. body_layer yf ec bc D = Inr layer)"
proof (intro conjI impI)
  show "w \<in> set (body_column ec bc D x wy (py_range D)) \<longleftrightarrow>
      (\<exists>dy. 0 \<le> dy \<and> dy < D \<and> fst w = (x, wy + dy) \<and> 0 \<le> wy + dy \<and> wy + dy < SIZE \<and>
         snd w = (fst bc, fst (snd bc), snd (snd bc), body_alpha ec D dy) \<and>
         (\<forall>d. 0 \<le> d \<and> d \<le> dy \<and> (0 \<le> wy + d \<and> wy + d < SIZE) \<longrightarrow> 1 \<le> body_alpha ec D d))"
    unfolding body_column_range column_hit_def ..
next
  assume "wy + dy' < 0 \<or> SIZE \<le> wy + dy'"
  then show "body_column ec bc D x wy (dy' # dys) = body_column ec bc D x wy dys"
    by (auto simp: Let_def)
next
  assume "0 \<le> wy + dy' \<and> wy + dy' < SIZE \<and> body_alpha ec D dy' < 1"
  then show "body_column ec bc D x wy (dy' # dys) = []"
    by (auto simp: Let_def)
next
  assume "w' \<in> set (body_writes yf ec bc D)"
  then show "in_canvas (fst w')"
    by (rule body_writes_in_canvas)
next
  show "\<exists>layer. body_layer yf ec bc D = Inr layer"
    using body_layer_result [of yf ec bc D] by blast
qed

theorem body_fill_skip_and_break_witness:
  "((0, 0), (25, 60, 100, body_alpha (100, 190, 235, 140) 200 1))
      \<in> set (body_column (100, 190, 235, 140) (25, 60, 100) 200 0 (- 1) (py_range 200))
   \<and> body_column (100, 190, 235, 140) (25, 60, 100) 200 0 (- 1) [0, 1]
       = body_column (100, 190, 235, 140) (25, 60, 100) 200 0 (- 1) [1]
   \<and> body_alpha (0, 0, 0, 0) 200 0 < 1
   \<and> body_column (0, 0, 0, 0) (25, 60, 100) 200 0 5 [0, 1, 2] = []
   \<and> ((0, 300), (25, 60, 100, 84)) \<in> set (body_writes (\<lambda>x. 300) (100, 190, 235, 140) (25, 60, 100) 200)
   \<and> in_canvas (0, 300)
   \<and> (\<exists>layer. body_layer (\<lambda>x. 300) (100, 190, 235, 140) (25, 60, 100) 200 = Inr layer)"
proof -
  let ?ec = "(100, 190, 235, 140) :: color4"
  let ?bc = "(25, 60, 100) :: color3"
  let ?w = "((0, 0), (25, 60, 100, body_alpha ?ec 200 1)) :: (int \<times> int) \<times> color4"
  note t1 = body_fill_skip_and_break
    [of ?w ?ec ?bc 200 0 "- 1" 0 "[1]" "((0, 300), (25, 60, 100, 84))" "\<lambda>x. 300"]
  note t2 = body_fill_skip_and_break
    [of ?w "(0, 0, 0, 0)" ?bc 200 0 5 0 "[1, 2]" "((0, 300), (25, 60, 100, 84))" "\<lambda>x. 300"]
  have ge: "1 \<le> body_alpha ?ec 200 d" if "d \<le> 200" for d
    using body_alpha_ge_2 [of ?ec 200 d] that by simp
  have "\<exists>dy. 0 \<le> dy \<and> dy < 200 \<and> fst ?w = (0, - 1 + dy) \<and> 0 \<le> - 1 + dy \<and> - 1 + dy < SIZE \<and>
         snd ?w = (fst ?bc, fst (snd ?bc), snd (snd ?bc), body_alpha ?ec 200 dy) \<and>
         (\<forall>d. 0 \<le> d \<and> d \<le> dy \<and> (0 \<le> - 1 + d \<and> - 1 + d < SIZE) \<longrightarrow> 1 \<le> body_alpha ?ec 200 d)"
    using ge by (intro exI [of _ 1]) (simp add: SIZE_def)
  with t1 have c1: "?w \<in> set (body_column ?ec ?bc 200 0 (- 1) (py_range 200))"
    by blast
  from t1 have c2: "body_column ?ec ?bc 200 0 (- 1) [0, 1] = body_column ?ec ?bc 200 0 (- 1) [1]"
    by simp
  have z: "body_alpha (0, 0, 0, 0) 200 0 < 1"
    by (simp add: body_alpha_zero)
  with t2 have c3: "body_column (0, 0, 0, 0) ?bc 200 0 5 [0, 1, 2] = []"
    by (simp add: SIZE_def)
  have mem: "((0, 300), (25, 60, 100, 84)) \<in> set (body_writes (\<lambda>x. 300) ?ec ?bc 200)"
    by (rule first_wave_store)
  with t1 have c4: "in_canvas (0, 300)"
    by simp
  from t1 have c5: "\<exists>layer. body_layer (\<lambda>x. 300) ?ec ?bc 200 = Inr layer"
    by blast
  from c1 c2 z c3 mem c4 c5 show ?thesis
    by blast
qed

lemma body_writes_full_eq:
  assumes "\<forall>d. 0 \<le> d \<and> d < D \<longrightarrow> 1 \<le> body_alpha ec D d"
  shows "body_writes yf ec bc D = body_writes_full yf ec bc D"
proof -
  have "\<forall>dy \<in> set (py_range D). 1 \<le> body_alpha ec D dy"
    using assms by (simp add: set_py_range)
  then have "body_column ec bc D x wy (py_range D) = body_column_full ec bc D x wy (py_range D)"
    for x wy
    by (rule body_column_full_eq)
  then show ?thesis
    by (simp add: body_writes_def body_writes_full_def)
qed

text \<open>
  C10. For each of the five wave descriptors the body-fill alpha is at least 2 at every
  depth of \<open>range(bloom_depth)\<close>, so the early exit on an alpha below 1 is never taken,
  and the body fill performs exactly the stores of the loop without the early exit.
\<close>

theorem early_exit_never_taken:
  assumes "w \<in> set waves"
  shows "(\<forall>d. 0 \<le> d \<and> d < depth w \<longrightarrow> 2 \<le> body_alpha (edge w) (depth w) d)
         \<and> body_writes (y_func w) (edge w) (body w) (depth w)
             = body_writes_full (y_func w) (edge w) (body w) (depth w)"
proof -
  have a: "2 \<le> body_alpha (edge w) (depth w) d" if "d < depth w" for d
    using waves_alpha_ge_2 [OF assms, of d] that by simp
  then have "\<forall>d. 0 \<le> d \<and> d < depth w \<longrightarrow> 1 \<le> body_alpha (edge w) (depth w) d"
    by force
  from body_writes_full_eq [OF this] a show ?thesis
    by blast
qed

theorem early_exit_never_taken_witness:
  "\<lparr>base_y = 740, amplitude = 35, freq = 8 / 1000, phase = 25 / 10,
     edge = (175, 240, 255, 250), body = (40, 100, 150), depth = 150, blur = 6\<rparr> \<in> set waves
   \<and> 2 \<le> body_alpha (175, 240, 255, 250) 150 149
   \<and> body_writes (\<lambda>x. wave_y (real_of_int x) 740 35 (8 / 1000) (25 / 10)) (175, 240, 255, 250) (40, 100, 150) 150
       = body_writes_full (\<lambda>x. wave_y (real_of_int x) 740 35 (8 / 1000) (25 / 10)) (175, 240, 255, 250) (40, 100, 150) 150"
proof -
  let ?v = "\<lparr>base_y = 740, amplitude = 35, freq = 8 / 1000, phase = 25 / 10,
     edge = (175, 240, 255, 250), body = (40, 100, 150), depth = 150, blur = 6\<rparr>"
  have v: "?v \<in> set waves"
    by (simp add: waves_def)
  have y: "y_func ?v = (\<lambda>x. wave_y (real_of_int x) 740 35 (8 / 1000) (25 / 10))"
    by (rule ext) (simp add: y_func_def)
  from early_exit_never_taken [OF v] have
    a: "\<forall>d. 0 \<le> d \<and> d < 150 \<longrightarrow> 2 \<le> body_alpha (175, 240, 255, 250) 150 d"
    and b: "body_writes (y_func ?v) (175, 240, 255, 250) (40, 100, 150) 150
              = body_writes_full (y_func ?v) (175, 240, 255, 250) (40, 100, 150) 150"
    by simp_all
  from a have "2 \<le> body_alpha (175, 240, 255, 250) 150 149"
    by simp
  with v b show ?thesis
    unfolding y by blast
qed

section \<open>The rounded-rectangle mask\<close>

lemma rectangle_result:
  assumes "valid_box bx"
  shows "rectangle bx fill im = Inr (\<lambda>p. if in_box bx p then fill else im p)"
  using assms by (simp add: rectangle_def)

lemma pieslice_okD:
  assumes "pieslice_ok ps" and "valid_box bx"
  shows "\<exists>im'. ps bx s e fill im = Inr im' \<and>
           (\<forall>p. (im' p = im p \<or> im' p = fill) \<and> (\<not> in_box bx p \<longrightarrow> im' p = im p))"
  using assms unfolding pieslice_ok_def by blast

lemma rounded_rect_result:
  assumes ok: "pieslice_ok (pil_pieslice lib)"
    and r: "0 \<le> radius" and w: "x0 + 2 * radius \<le> x1" and h: "y0 + 2 * radius \<le> y1"
  shows "\<exists>m. rounded_rect lib draw (x0, y0, x1, y1) radius fill = Inr m \<and>
           (\<forall>p. (m p = draw p \<or> m p = clip8 fill) \<and>
                (in_box (x0 + radius, y0, x1 - radius, y1) p \<longrightarrow> m p = clip8 fill) \<and>
                (in_box (x0, y0 + radius, x1, y1 - radius) p \<longrightarrow> m p = clip8 fill) \<and>
                (\<not> in_box (x0, y0, x1, y1) p \<longrightarrow> m p = draw p))"
proof -
  let ?f = "clip8 fill"
  let ?b1 = "(x0 + radius, y0, x1 - radius, y1)"
  let ?b2 = "(x0, y0 + radius, x1, y1 - radius)"
  let ?b3 = "(x0, y0, x0 + 2 * radius, y0 + 2 * radius)"
  let ?b4 = "(x1 - 2 * radius, y0, x1, y0 + 2 * radius)"
  let ?b5 = "(x0, y1 - 2 * radius, x0 + 2 * radius, y1)"
  let ?b6 = "(x1 - 2 * radius, y1 - 2 * radius, x1, y1)"
  let ?bb = "(x0, y0, x1, y1)"
  have v: "valid_box ?b1" "valid_box ?b2" "valid_box ?b3" "valid_box ?b4" "valid_box ?b5"
    "valid_box ?b6"
    using r w h by (simp_all add: valid_box_def)
  have sub: "in_box ?b1 p \<Longrightarrow> in_box ?bb p" "in_box ?b2 p \<Longrightarrow> in_box ?bb p"
    "in_box ?b3 p \<Longrightarrow> in_box ?bb p" "in_box ?b4 p \<Longrightarrow> in_box ?bb p"
    "in_box ?b5 p \<Longrightarrow> in_box ?bb p" "in_box ?b6 p \<Longrightarrow> in_box ?bb p" for p
    using r w h by (simp_all add: in_box_def)
  define d1 where "d1 = (\<lambda>p. if in_box ?b1 p then ?f else draw p)"
  define d2 where "d2 = (\<lambda>p. if in_box ?b2 p then ?f else d1 p)"
  have s1: "rectangle ?b1 ?f draw = Inr d1"
    unfolding d1_def by (rule rectangle_result [OF v(1)])
  have s2: "rectangle ?b2 ?f d1 = Inr d2"
    unfolding d2_def by (rule rectangle_result [OF v(2)])
  from pieslice_okD [OF ok v(3), of 180 270 ?f d2]
  obtain d3 where s3: "pil_pieslice lib ?b3 180 270 ?f d2 = Inr d3"
    and k3: "\<And>p. d3 p = d2 p \<or> d3 p = ?f" and o3: "\<And>p. \<not> in_box ?b3 p \<Longrightarrow> d3 p = d2 p"
    by blast
  from pieslice_okD [OF ok v(4), of 270 360 ?f d3]
  obtain d4 where s4: "pil_pieslice lib ?b4 270 360 ?f d3 = Inr d4"
    and k4: "\<And>p. d4 p = d3 p \<or> d4 p = ?f" and o4: "\<And>p. \<not> in_box ?b4 p \<Longrightarrow> d4 p = d3 p"
    by blast
  from pieslice_okD [OF ok v(5), of 90 180 ?f d4]
  obtain d5 where s5: "pil_pieslice lib ?b5 90 180 ?f d4 = Inr d5"
    and k5: "\<And>p. d5 p = d4 p \<or> d5 p = ?f" and o5: "\<And>p. \<not> in_box ?b5 p \<Longrightarrow> d5 p = d4 p"
    by blast
  from pieslice_okD [OF ok v(6), of 0 90 ?f d5]
  obtain d6 where s6: "pil_pieslice lib ?b6 0 90 ?f d5 = Inr d6"
    and k6: "\<And>p. d6 p = d5 p \<or> d6 p = ?f" and o6: "\<And>p. \<not> in_box ?b6 p \<Longrightarrow> d6 p = d5 p"
    by blast
  have run: "rounded_rect lib draw (x0, y0, x1, y1) radius fill = Inr d6"
    by (simp add: rounded_rect_def s1 s2 s3 s4 s5 s6)
  have keep: "d6 p = ?f" if "d2 p = ?f" for p
    using that k3 [of p] k4 [of p] k5 [of p] k6 [of p] by metis
  have old: "d6 p = draw p \<or> d6 p = ?f" for p
  proof -
    have "d2 p = draw p \<or> d2 p = ?f"
      by (simp add: d2_def d1_def)
    then show ?thesis
      using k3 [of p] k4 [of p] k5 [of p] k6 [of p] by metis
  qed
  have in1: "d6 p = ?f" if "in_box ?b1 p" for p
    using that by (intro keep) (simp add: d2_def d1_def)
  have in2: "d6 p = ?f" if "in_box ?b2 p" for p
    using that by (intro keep) (simp add: d2_def)
  have out: "d6 p = draw p" if "\<not> in_box ?bb p" for p
  proof -
    have "\<not> in_box ?b1 p" "\<not> in_box ?b2 p" "\<not> in_box ?b3 p" "\<not> in_box ?b4 p"
      "\<not> in_box ?b5 p" "\<not> in_box ?b6 p"
      using that sub [of p] by blast+
    then show ?thesis
      using o3 [of p] o4 [of p] o5 [of p] o6 [of p] by (simp add: d2_def d1_def)
  qed
  from run old in1 in2 out show ?thesis
    by blast
qed

lemma icon_mask_result:
  assumes "pieslice_ok (pil_pieslice lib)"
  shows "\<exists>m. icon_mask lib = Inr m \<and>
           (\<forall>p. (m p = 0 \<or> m p = 255) \<and>
                (in_box (285, 100, 739, 924) p \<longrightarrow> m p = 255) \<and>
                (in_box (100, 285, 924, 739) p \<longrightarrow> m p = 255) \<and>
                (\<not> in_box (100, 100, 924, 924) p \<longrightarrow> m p = 0))"
proof -
  have c: "clip8 255 = 255"
    by (simp add: clip8_def)
  from rounded_rect_result [OF assms, of 185 100 924 100 924 "new_image 0" 255]
  show ?thesis
    unfolding icon_mask_def MARGIN_def SIZE_def CORNER_def c
    by (simp add: new_image_def)
qed

lemma ref_pieslice_ok: "pieslice_ok (pil_pieslice ref_pil)"
  by (simp add: pieslice_ok_def ref_pil_def ref_pieslice_def)

text \<open>
  C3. With any pie-slice rasteriser that stays inside its bounding box and writes only
  the fill value, the mask of main is built without error; in every column \<open>x\<close> with
  \<open>MARGIN + CORNER \<le> x \<le> 1024 - MARGIN - CORNER\<close> the pixel at row \<open>MARGIN\<close> is 255 and
  every pixel above it is 0, so the topmost opaque pixel is at \<open>y = MARGIN\<close>; the centre
  pixel is 255 and the four corner pixels of the canvas are 0.
\<close>

theorem mask_top_edge_and_corners:
  assumes "pieslice_ok (pil_pieslice lib)"
  shows "\<exists>m. icon_mask lib = Inr m \<and>
           (\<forall>x. MARGIN + CORNER \<le> x \<and> x \<le> SIZE - MARGIN - CORNER \<longrightarrow>
                m (x, MARGIN) = 255 \<and> m (x, MARGIN - 1) = 0 \<and> (\<forall>y. y < MARGIN \<longrightarrow> m (x, y) = 0)) \<and>
           m (512, 512) = 255 \<and>
           m (0, 0) = 0 \<and> m (1023, 0) = 0 \<and> m (0, 1023) = 0 \<and> m (1023, 1023) = 0"
proof -
  from icon_mask_result [OF assms] obtain m where
    run: "icon_mask lib = Inr m"
    and top: "\<And>p. in_box (285, 100, 739, 924) p \<Longrightarrow> m p = 255"
    and out: "\<And>p. \<not> in_box (100, 100, 924, 924) p \<Longrightarrow> m p = 0"
    by blast
  have edge: "m (x, MARGIN) = 255 \<and> m (x, MARGIN - 1) = 0 \<and> (\<forall>y. y < MARGIN \<longrightarrow> m (x, y) = 0)"
    if "MARGIN + CORNER \<le> x \<and> x \<le> SIZE - MARGIN - CORNER" for x
  proof -
    from that have x: "285 \<le> x" "x \<le> 739"
      by (simp_all add: MARGIN_def CORNER_def SIZE_def)
    have "m (x, 100) = 255"
      using x by (intro top) (simp add: in_box_def)
    moreover have "m (x, y) = 0" if "y < 100" for y
      using that by (intro out) (simp add: in_box_def)
    ultimately show ?thesis
      by (simp add: MARGIN_def)
  qed
  have "m (512, 512) = 255"
    by (intro top) (simp add: in_box_def)
  moreover have "m (0, 0) = 0" "m (1023, 0) = 0" "m (0, 1023) = 0" "m (1023, 1023) = 0"
    by (intro out; simp add: in_box_def)+
  ultimately show ?thesis
    using run edge by blast
qed

theorem mask_top_edge_and_corners_witness:
  "pieslice_ok (pil_pieslice ref_pil) \<and>
   (\<exists>m. icon_mask ref_pil = Inr m \<and> m (285, 100) = 255 \<and> m (285, 99) = 0 \<and>
      m (512, 512) = 255 \<and>
      m (0, 0) = 0 \<and> m (1023, 0) = 0 \<and> m (0, 1023) = 0 \<and> m (1023, 1023) = 0)"
proof -
  from mask_top_edge_and_corners [OF ref_pieslice_ok] obtain m where
    run: "icon_mask ref_pil = Inr m"
    and edge: "\<forall>x. MARGIN + CORNER \<le> x \<and> x \<le> SIZE - MARGIN - CORNER \<longrightarrow>
                m (x, MARGIN) = 255 \<and> m (x, MARGIN - 1) = 0 \<and> (\<forall>y. y < MARGIN \<longrightarrow> m (x, y) = 0)"
    and rest: "m (512, 512) = 255" "m (0, 0) = 0" "m (1023, 0) = 0" "m (0, 1023) = 0"
      "m (1023, 1023) = 0"
    by blast
  have "MARGIN + CORNER \<le> 285 \<and> 285 \<le> SIZE - MARGIN - CORNER"
    by (simp add: MARGIN_def CORNER_def SIZE_def)
  with edge have "m (285, MARGIN) = 255 \<and> m (285, MARGIN - 1) = 0"
    by blast
  then have "m (285, 100) = 255" "m (285, 99) = 0"
    by (simp_all add: MARGIN_def)
  with run rest ref_pieslice_ok show ?thesis
    by blast
qed

section \<open>Compositing and the final image\<close>

lemma shiftfordiv255_alpha:
  assumes "n \<le> 255"
  shows "shiftfordiv255 (n * 255 + 128) = n"
proof (cases "n \<le> 128")
  case True
  then have e: "n * 255 + 128 = (128 - n) + n * 256"
    by simp
  have d: "(n * 255 + 128) div 256 = n"
    unfolding e using True by simp
  have "n + (n * 255 + 128) = 128 + n * 256"
    by simp
  then have "(n + (n * 255 + 128)) div 256 = n"
    by simp
  then show ?thesis
    unfolding shiftfordiv255_def d .
next
  case False
  then obtain k where k: "n = Suc k"
    by (cases n) simp_all
  have e: "n * 255 + 128 = (383 - k) + k * 256"
    using assms by (simp add: k)
  have d: "(n * 255 + 128) div 256 = k"
    unfolding e using False by (simp add: k)
  have "k + (n * 255 + 128) = 127 + n * 256"
    by (simp add: k)
  then have "(k + (n * 255 + 128)) div 256 = n"
    by simp
  then show ?thesis
    unfolding shiftfordiv255_def d .
qed

lemma unat_byte_le: "unat (sa :: 8 word) \<le> 255"
  using unsigned_less [of sa, where 'a = nat] by simp

lemma composite_over_transparent_alpha:
  "alpha_of (composite_pixel (dr, dg, db, 0) src) = alpha_of src"
proof (cases src)
  case (fields sr sg sb sa)
  show ?thesis
  proof (cases "sa = 0")
    case True
    then show ?thesis
      by (simp add: composite_pixel_def alpha_of_def fields)
  next
    case False
    have "unat sa \<le> 255"
      by (rule unat_byte_le)
    then have "shiftfordiv255 (unat sa * 255 + 128) = unat sa"
      by (rule shiftfordiv255_alpha)
    then show ?thesis
      using False by (simp add: composite_pixel_def alpha_of_def fields Let_def)
  qed
qed

lemma clipped_alpha:
  "alpha_of (alpha_composite (new_image (ink4 (0, 0, 0, 0))) (putalpha content m) p) = m p"
proof -
  have z: "new_image (ink4 (0, 0, 0, 0)) p = (0, 0, 0, 0)"
    by (simp add: new_image_def ink4_def clip8_def)
  have "alpha_of (putalpha content m p) = m p"
    by (simp add: putalpha_def alpha_of_def split: prod.splits)
  then show ?thesis
    unfolding alpha_composite_def z composite_over_transparent_alpha .
qed

lemma draw_glass_wave_result:
  "\<exists>b. body_layer yf ec bc D = Inr b \<and>
     draw_glass_wave lib img yf ec bc D r =
       Inr (alpha_composite
              (alpha_composite (alpha_composite img b)
                 (pil_gaussian_blur lib r (edge_layer lib yf ec)))
              (edge_layer lib yf ec))"
proof -
  from body_layer_result [of yf ec bc D] obtain b where "body_layer yf ec bc D = Inr b"
    by blast
  then show ?thesis
    by (simp add: draw_glass_wave_def bloom_layer_def)
qed

lemma render_waves_Nil: "render_waves lib [] c = Inr c"
  by (simp add: render_waves_def)

lemma render_waves_Cons:
  assumes "draw_glass_wave lib c (y_func w) (edge w) (body w) (depth w) (blur w) = Inr c'"
  shows "render_waves lib (w # ws) c = render_waves lib ws c'"
  using assms by (simp add: render_waves_def)

lemma render_waves_returns: "\<exists>c'. render_waves lib ws c = Inr c'"
proof (induction ws arbitrary: c)
  case Nil
  show ?case by (simp add: render_waves_Nil)
next
  case (Cons w ws)
  from draw_glass_wave_result [of "y_func w" "edge w" "body w" "depth w" lib c "blur w"]
  obtain c1 where "draw_glass_wave lib c (y_func w) (edge w) (body w) (depth w) (blur w) = Inr c1"
    by blast
  from render_waves_Cons [OF this] Cons.IH [of c1] show ?case
    by simp
qed

lemma main_result:
  assumes "pieslice_ok (pil_pieslice lib)"
  shows "\<exists>m bg c. icon_mask lib = Inr m \<and>
           paint_background (new_image (ink4 (0, 0, 0, 0))) = Inr bg \<and>
           render_waves lib waves bg = Inr c \<and>
           main lib = Inr (alpha_composite (new_image (ink4 (0, 0, 0, 0))) (putalpha c m))"
proof -
  from icon_mask_result [OF assms] obtain m where m: "icon_mask lib = Inr m"
    by blast
  from paint_background_result [of "new_image (ink4 (0, 0, 0, 0))"] obtain bg where
    bg: "paint_background (new_image (ink4 (0, 0, 0, 0))) = Inr bg"
    by blast
  from render_waves_returns [of lib waves bg] obtain c where c: "render_waves lib waves bg = Inr c"
    by blast
  have "main lib = Inr (alpha_composite (new_image (ink4 (0, 0, 0, 0))) (putalpha c m))"
    by (simp add: main_def m bg c)
  with m bg c show ?thesis
    by blast
qed

text \<open>
  C9. With a pie-slice rasteriser as above, main returns an image whose alpha channel
  equals the rounded-rectangle mask at every pixel, and the mask is 0 or 255 everywhere:
  0 outside the bounding box of the rounded rectangle, 255 on its central cross. This
  does not depend on the content: overwriting the alpha of any canvas with the mask and
  compositing it over the transparent base gives the mask as alpha.
\<close>

theorem final_alpha_is_mask:
  assumes "pieslice_ok (pil_pieslice lib)"
  shows "\<exists>out m. main lib = Inr out \<and> icon_mask lib = Inr m \<and>
           (\<forall>p. alpha_of (out p) = m p \<and> (m p = 0 \<or> m p = 255)) \<and>
           (\<forall>p. \<not> in_box (MARGIN, MARGIN, SIZE - MARGIN, SIZE - MARGIN) p \<longrightarrow>
                alpha_of (out p) = 0) \<and>
           (\<forall>p. in_box (MARGIN + CORNER, MARGIN, SIZE - MARGIN - CORNER, SIZE - MARGIN) p \<or>
                in_box (MARGIN, MARGIN + CORNER, SIZE - MARGIN, SIZE - MARGIN - CORNER) p \<longrightarrow>
                alpha_of (out p) = 255) \<and>
           (\<forall>content p.
              alpha_of (alpha_composite (new_image (ink4 (0, 0, 0, 0))) (putalpha content m) p) = m p)"
proof -
  from main_result [OF assms] obtain m c where
    m: "icon_mask lib = Inr m"
    and out: "main lib = Inr (alpha_composite (new_image (ink4 (0, 0, 0, 0))) (putalpha c m))"
    by blast
  from icon_mask_result [OF assms] m have
    v: "\<And>p. m p = 0 \<or> m p = 255"
    and i1: "\<And>p. in_box (285, 100, 739, 924) p \<Longrightarrow> m p = 255"
    and i2: "\<And>p. in_box (100, 285, 924, 739) p \<Longrightarrow> m p = 255"
    and o: "\<And>p. \<not> in_box (100, 100, 924, 924) p \<Longrightarrow> m p = 0"
    by auto
  let ?out = "alpha_composite (new_image (ink4 (0, 0, 0, 0))) (putalpha c m)"
  have a: "alpha_of (?out p) = m p" for p
    by (rule clipped_alpha)
  have "\<forall>p. alpha_of (?out p) = m p \<and> (m p = 0 \<or> m p = 255)"
    using a v by simp
  moreover have "\<forall>p. \<not> in_box (MARGIN, MARGIN, SIZE - MARGIN, SIZE - MARGIN) p \<longrightarrow>
                alpha_of (?out p) = 0"
    using a o by (simp add: MARGIN_def SIZE_def)
  moreover have "\<forall>p. in_box (MARGIN + CORNER, MARGIN, SIZE - MARGIN - CORNER, SIZE - MARGIN) p \<or>
                in_box (MARGIN, MARGIN + CORNER, SIZE - MARGIN, SIZE - MARGIN - CORNER) p \<longrightarrow>
                alpha_of (?out p) = 255"
    using a i1 i2 by (auto simp: MARGIN_def SIZE_def CORNER_def)
  moreover have "\<forall>content p.
      alpha_of (alpha_composite (new_image (ink4 (0, 0, 0, 0))) (putalpha content m) p) = m p"
    using clipped_alpha by blast
  ultimately show ?thesis
    using m out by blast
qed

theorem final_alpha_is_mask_witness:
  "pieslice_ok (pil_pieslice ref_pil) \<and>
   (\<exists>out m. main ref_pil = Inr out \<and> icon_mask ref_pil = Inr m \<and>
      alpha_of (out (0, 0)) = m (0, 0) \<and> alpha_of (out (0, 0)) = 0 \<and>
      alpha_of (out (512, 512)) = m (512, 512) \<and> alpha_of (out (512, 512)) = 255)"
proof -
  from final_alpha_is_mask [OF ref_pieslice_ok] obtain out m where
    run: "main ref_pil = Inr out" "icon_mask ref_pil = Inr m"
    and a: "\<forall>p. alpha_of (out p) = m p \<and> (m p = 0 \<or> m p = 255)"
    and o: "\<forall>p. \<not> in_box (MARGIN, MARGIN, SIZE - MARGIN, SIZE - MARGIN) p \<longrightarrow>
                alpha_of (out p) = 0"
    and i: "\<forall>p. in_box (MARGIN + CORNER, MARGIN, SIZE - MARGIN - CORNER, SIZE - MARGIN) p \<or>
                in_box (MARGIN, MARGIN + CORNER, SIZE - MARGIN, SIZE - MARGIN - CORNER) p \<longrightarrow>
                alpha_of (out p) = 255"
    by blast
  have "\<not> in_box (MARGIN, MARGIN, SIZE - MARGIN, SIZE - MARGIN) (0, 0)"
    by (simp add: in_box_def MARGIN_def)
  with o have c0: "alpha_of (out (0, 0)) = 0"
    by blast
  have "in_box (MARGIN + CORNER, MARGIN, SIZE - MARGIN - CORNER, SIZE - MARGIN) (512, 512)"
    by (simp add: in_box_def MARGIN_def CORNER_def SIZE_def)
  with i have c1: "alpha_of (out (512, 512)) = 255"
    by blast
  from a have "alpha_of (out (0, 0)) = m (0, 0)" "alpha_of (out (512, 512)) = m (512, 512)"
    by simp_all
  with run c0 c1 ref_pieslice_ok show ?thesis
    by blast
qed

lemma render_five:
  "\<exists>c1 c2 c3 c4 c5.
     draw_glass_wave lib c0 (y_func w1) (edge w1) (body w1) (depth w1) (blur w1) = Inr c1 \<and>
     draw_glass_wave lib c1 (y_func w2) (edge w2) (body w2) (depth w2) (blur w2) = Inr c2 \<and>
     draw_glass_wave lib c2 (y_func w3) (edge w3) (body w3) (depth w3) (blur w3) = Inr c3 \<and>
     draw_glass_wave lib c3 (y_func w4) (edge w4) (body w4) (depth w4) (blur w4) = Inr c4 \<and>
     draw_glass_wave lib c4 (y_func w5) (edge w5) (body w5) (depth w5) (blur w5) = Inr c5 \<and>
     render_waves lib [w1, w2, w3, w4, w5] c0 = Inr c5"
proof -
  have step: "\<exists>c'. draw_glass_wave lib c (y_func w) (edge w) (body w) (depth w) (blur w) = Inr c'"
    for c w
    using draw_glass_wave_result [of "y_func w" "edge w" "body w" "depth w" lib c "blur w"]
    by blast
  from step obtain c1 where
    c1: "draw_glass_wave lib c0 (y_func w1) (edge w1) (body w1) (depth w1) (blur w1) = Inr c1"
    by blast
  from step obtain c2 where
    c2: "draw_glass_wave lib c1 (y_func w2) (edge w2) (body w2) (depth w2) (blur w2) = Inr c2"
    by blast
  from step obtain c3 where
    c3: "draw_glass_wave lib c2 (y_func w3) (edge w3) (body w3) (depth w3) (blur w3) = Inr c3"
    by blast
  from step obtain c4 where
    c4: "draw_glass_wave lib c3 (y_func w4) (edge w4) (body w4) (depth w4) (blur w4) = Inr c4"
    by blast
  from step obtain c5 where
    c5: "draw_glass_wave lib c4 (y_func w5) (edge w5) (body w5) (depth w5) (blur w5) = Inr c5"
    by blast
  have "render_waves lib [w1, w2, w3, w4, w5] c0 = Inr c5"
    by (simp add: render_waves_Cons [OF c1] render_waves_Cons [OF c2] render_waves_Cons [OF c3]
        render_waves_Cons [OF c4] render_waves_Cons [OF c5] render_waves_Nil)
  with c1 c2 c3 c4 c5 show ?thesis
    by blast
qed

lemma waves_nth: "waves = [waves ! 0, waves ! 1, waves ! 2, waves ! 3, waves ! 4]"
  by (simp add: waves_def)

text \<open>
  C2. draw_glass_wave composites three layers onto the canvas it is given, each with
  alpha_composite: first the body fill, then the bloom layer, which is the blurred copy
  of the edge layer, then the edge layer itself, the line of width 1 through the points
  \<open>(x, int(y(x)))\<close>. The loop of main applies it to the five descriptors in the order of
  the list, each time to the canvas the previous wave returned; with a pie-slice
  rasteriser as above, main runs this loop on the painted background and clips the
  result with the mask.
\<close>

theorem compositing_order:
  "(\<exists>b. body_layer yf ec bc D = Inr b \<and>
      draw_glass_wave lib img yf ec bc D r =
        Inr (alpha_composite
               (alpha_composite (alpha_composite img b) (bloom_layer lib yf ec r))
               (edge_layer lib yf ec)))
   \<and> bloom_layer lib yf ec r = pil_gaussian_blur lib r (edge_layer lib yf ec)
   \<and> edge_layer lib yf ec =
       pil_line lib (map (\<lambda>x. (x, py_int (yf x))) (py_range SIZE)) ec 1
         (new_image (ink4 (0, 0, 0, 0)))
   \<and> map base_y waves = [300, 400, 510, 620, 740]
   \<and> (\<exists>c1 c2 c3 c4 c5.
        draw_glass_wave lib c0 (y_func (waves ! 0)) (edge (waves ! 0)) (body (waves ! 0))
          (depth (waves ! 0)) (blur (waves ! 0)) = Inr c1 \<and>
        draw_glass_wave lib c1 (y_func (waves ! 1)) (edge (waves ! 1)) (body (waves ! 1))
          (depth (waves ! 1)) (blur (waves ! 1)) = Inr c2 \<and>
        draw_glass_wave lib c2 (y_func (waves ! 2)) (edge (waves ! 2)) (body (waves ! 2))
          (depth (waves ! 2)) (blur (waves ! 2)) = Inr c3 \<and>
        draw_glass_wave lib c3 (y_func (waves ! 3)) (edge (waves ! 3)) (body (waves ! 3))
          (depth (waves ! 3)) (blur (waves ! 3)) = Inr c4 \<and>
        draw_glass_wave lib c4 (y_func (waves ! 4)) (edge (waves ! 4)) (body (waves ! 4))
          (depth (waves ! 4)) (blur (waves ! 4)) = Inr c5 \<and>
        render_waves lib waves c0 = Inr c5)
   \<and> (pieslice_ok (pil_pieslice lib) \<longrightarrow>
        (\<exists>m bg c. icon_mask lib = Inr m \<and>
           paint_background (new_image (ink4 (0, 0, 0, 0))) = Inr bg \<and>
           render_waves lib waves bg = Inr c \<and>
           main lib = Inr (alpha_composite (new_image (ink4 (0, 0, 0, 0))) (putalpha c m))))"
proof (intro conjI impI)
  show "\<exists>b. body_layer yf ec bc D = Inr b \<and>
      draw_glass_wave lib img yf ec bc D r =
        Inr (alpha_composite
               (alpha_composite (alpha_composite img b) (bloom_layer lib yf ec r))
               (edge_layer lib yf ec))"
    unfolding bloom_layer_def by (rule draw_glass_wave_result)
next
  show "bloom_layer lib yf ec r = pil_gaussian_blur lib r (edge_layer lib yf ec)"
    by (simp add: bloom_layer_def)
next
  show "edge_layer lib yf ec =
       pil_line lib (map (\<lambda>x. (x, py_int (yf x))) (py_range SIZE)) ec 1
         (new_image (ink4 (0, 0, 0, 0)))"
    by (simp add: edge_layer_def)
next
  show "map base_y waves = [300, 400, 510, 620, 740]"
    by (simp add: waves_def)
next
  from render_five [of lib c0 "waves ! 0" "waves ! 1" "waves ! 2" "waves ! 3" "waves ! 4"]
  show "\<exists>c1 c2 c3 c4 c5.
        draw_glass_wave lib c0 (y_func (waves ! 0)) (edge (waves ! 0)) (body (waves ! 0))
          (depth (waves ! 0)) (blur (waves ! 0)) = Inr c1 \<and>
        draw_glass_wave lib c1 (y_func (waves ! 1)) (edge (waves ! 1)) (body (waves ! 1))
          (depth (waves ! 1)) (blur (waves ! 1)) = Inr c2 \<and>
        draw_glass_wave lib c2 (y_func (waves ! 2)) (edge (waves ! 2)) (body (waves ! 2))
          (depth (waves ! 2)) (blur (waves ! 2)) = Inr c3 \<and>
        draw_glass_wave lib c3 (y_func (waves ! 3)) (edge (waves ! 3)) (body (waves ! 3))
          (depth (waves ! 3)) (blur (waves ! 3)) = Inr c4 \<and>
        draw_glass_wave lib c4 (y_func (waves ! 4)) (edge (waves ! 4)) (body (waves ! 4))
          (depth (waves ! 4)) (blur (waves ! 4)) = Inr c5 \<and>
        render_waves lib waves c0 = Inr c5"
    unfolding waves_nth [symmetric] .
next
  assume "pieslice_ok (pil_pieslice lib)"
  then show "\<exists>m bg c. icon_mask lib = Inr m \<and>
           paint_background (new_image (ink4 (0, 0, 0, 0))) = Inr bg \<and>
           render_waves lib waves bg = Inr c \<and>
           main lib = Inr (alpha_composite (new_image (ink4 (0, 0, 0, 0))) (putalpha c m))"
    by (rule main_result)
qed

theorem compositing_order_witness:
  "pieslice_ok (pil_pieslice ref_pil) \<and>
   (\<exists>m bg c. icon_mask ref_pil = Inr m \<and>
      paint_background (new_image (ink4 (0, 0, 0, 0))) = Inr bg \<and>
      render_waves ref_pil waves bg = Inr c \<and>
      main ref_pil = Inr (alpha_composite (new_image (ink4 (0, 0, 0, 0))) (putalpha c m))) \<and>
   (\<exists>b. body_layer (\<lambda>x. 300) (100, 190, 235, 140) (25, 60, 100) 200 = Inr b \<and>
      draw_glass_wave ref_pil (new_image (ink4 (5, 5, 12, 255))) (\<lambda>x. 300) (100, 190, 235, 140)
          (25, 60, 100) 200 10 =
        Inr (alpha_composite
               (alpha_composite (alpha_composite (new_image (ink4 (5, 5, 12, 255))) b)
                  (bloom_layer ref_pil (\<lambda>x. 300) (100, 190, 235, 140) 10))
               (edge_layer ref_pil (\<lambda>x. 300) (100, 190, 235, 140))))"
proof -
  note inst = compositing_order [of "\<lambda>x. 300" "(100, 190, 235, 140)" "(25, 60, 100)" 200
      ref_pil "new_image (ink4 (5, 5, 12, 255))" 10 "new_image (ink4 (5, 5, 12, 255))"]
  from inst ref_pieslice_ok have
    "\<exists>m bg c. icon_mask ref_pil = Inr m \<and>
      paint_background (new_image (ink4 (0, 0, 0, 0))) = Inr bg \<and>
      render_waves ref_pil waves bg = Inr c \<and>
      main ref_pil = Inr (alpha_composite (new_image (ink4 (0, 0, 0, 0))) (putalpha c m))"
    by blast
  moreover from inst have
    "\<exists>b. body_layer (\<lambda>x. 300) (100, 190, 235, 140) (25, 60, 100) 200 = Inr b \<and>
      draw_glass_wave ref_pil (new_image (ink4 (5, 5, 12, 255))) (\<lambda>x. 300) (100, 190, 235, 140)
          (25, 60, 100) 200 10 =
        Inr (alpha_composite
               (alpha_composite (alpha_composite (new_image (ink4 (5, 5, 12, 255))) b)
                  (bloom_layer ref_pil (\<lambda>x. 300) (100, 190, 235, 140) 10))
               (edge_layer ref_pil (\<lambda>x. 300) (100, 190, 235, 140)))"
    by blast
  ultimately show ?thesis
    using ref_pieslice_ok by blast
qed

section \<open>Order of the waves\<close>

lemma body_alpha_100_mid: "body_alpha (100, 190, 235, 100) 200 100 = 10"
proof -
  have e: "exp (- (35 / 10) * (real_of_int 100 / real_of_int 200)) = 1 / exp (7 / 4 :: real)"
    by (simp add: exp_minus inverse_eq_divide)
  have "(10 :: real) \<le> 60 / 6"
    by simp
  also have "\<dots> \<le> 60 / exp (7 / 4)"
    using exp_7_4_upper by (intro divide_left_mono) simp_all
  finally have lo: "10 \<le> 60 / exp (7 / 4 :: real)" .
  have "60 / exp (7 / 4 :: real) \<le> 60 / (11 / 2)"
    using exp_7_4_lower by (intro divide_left_mono) simp_all
  also have "\<dots> < (11 :: real)"
    by simp
  finally have hi: "60 / exp (7 / 4 :: real) < 11" .
  have fl: "\<lfloor>60 / exp (7 / 4 :: real)\<rfloor> = 10"
    using lo hi by (simp add: floor_eq_iff)
  have "body_alpha (100, 190, 235, 100) 200 100 = py_int (60 / exp (7 / 4))"
    unfolding body_alpha_unfold e by simp
  also have "\<dots> = \<lfloor>60 / exp (7 / 4 :: real)\<rfloor>"
    by (rule py_int_nonneg) simp
  finally show ?thesis
    using fl by simp
qed

lemma body_alpha_ge_1:
  assumes "70 \<le> snd (snd (snd ec))" and "0 < D" and "d \<le> D"
  shows "1 \<le> body_alpha ec D d"
proof -
  have ea: "0 \<le> snd (snd (snd ec))"
    using assms(1) by simp
  have "(1 :: real) \<le> 42 / 42"
    by simp
  also have "\<dots> \<le> 42 / exp (7 / 2)"
    using exp_7_2_upper by (intro divide_left_mono) simp_all
  also have "\<dots> \<le> real_of_int (snd (snd (snd ec))) * (6 / 10) / exp (7 / 2)"
    using assms(1) by (intro divide_right_mono) simp_all
  finally have "1 \<le> \<lfloor>real_of_int (snd (snd (snd ec))) * (6 / 10) / exp (7 / 2)\<rfloor>"
    by (simp add: le_floor_iff)
  moreover have "0 \<le> real_of_int (snd (snd (snd ec))) * (6 / 10) / exp (7 / 2)"
    using ea by simp
  ultimately have "1 \<le> body_alpha ec D D"
    unfolding body_alpha_at_depth [OF assms(2)] by (simp add: py_int_def)
  also have "\<dots> \<le> body_alpha ec D d"
    by (rule body_alpha_antimono [OF ea assms(2,3)])
  finally show ?thesis .
qed

lemma composite_transparent_src:
  assumes "alpha_of src = 0"
  shows "composite_pixel dst src = dst"
  using assms by (cases dst; cases src) (simp add: composite_pixel_def alpha_of_def)

lemma draw_glass_wave_pixel:
  assumes "alpha_of (edge_layer lib yf ec p) = 0"
    and "alpha_of (bloom_layer lib yf ec r p) = 0"
    and "(p, v) \<in> set (body_writes yf ec bc D)"
  shows "\<exists>out. draw_glass_wave lib img yf ec bc D r = Inr out \<and>
           out p = composite_pixel (img p) (ink4 v)"
proof -
  from draw_glass_wave_result [of yf ec bc D lib img r] obtain b where
    b: "body_layer yf ec bc D = Inr b"
    and run: "draw_glass_wave lib img yf ec bc D r =
       Inr (alpha_composite
              (alpha_composite (alpha_composite img b)
                 (pil_gaussian_blur lib r (edge_layer lib yf ec)))
              (edge_layer lib yf ec))"
    by blast
  have bp: "b p = ink4 v"
    by (rule body_layer_pixel [OF assms(3) b])
  have bl: "alpha_of (pil_gaussian_blur lib r (edge_layer lib yf ec) p) = 0"
    using assms(2) by (simp add: bloom_layer_def)
  have "alpha_composite
              (alpha_composite (alpha_composite img b)
                 (pil_gaussian_blur lib r (edge_layer lib yf ec)))
              (edge_layer lib yf ec) p = composite_pixel (img p) (ink4 v)"
    by (simp add: alpha_composite_def composite_transparent_src [OF assms(1)]
        composite_transparent_src [OF bl] bp)
  with run show ?thesis
    by simp
qed

lemma y_func_flat:
  "y_func flat_a = (\<lambda>x. 300)" "y_func flat_c = (\<lambda>x. 300)"
  by (rule ext, simp add: y_func_def wave_y_def flat_a_def flat_c_def)+

lemma flat_store:
  assumes "0 \<le> d" and "d < 200"
  shows "((0, 300 + d), (fst bc, fst (snd bc), snd (snd bc), body_alpha (100, 190, 235, 100) 200 d))
     \<in> set (body_writes (\<lambda>x. 300) (100, 190, 235, 100) bc 200)"
proof -
  let ?ec = "(100, 190, 235, 100) :: color4"
  have ge: "1 \<le> body_alpha ?ec 200 d'" if "d' \<le> d" for d'
    using body_alpha_ge_1 [of ?ec 200 d'] that assms by simp
  have "column_hit ?ec bc 200 0 300 0
          ((0, 300 + d), (fst bc, fst (snd bc), snd (snd bc), body_alpha ?ec 200 d)) d"
    unfolding column_hit_def using ge assms by (simp add: SIZE_def)
  moreover have "py_int ((\<lambda>x. 300) (0 :: int)) = 300"
    by (simp add: py_int_def)
  ultimately have "\<exists>x dy. 0 \<le> x \<and> x < SIZE \<and>
      column_hit ?ec bc 200 x (py_int ((\<lambda>x. 300) x)) 0
        ((0, 300 + d), (fst bc, fst (snd bc), snd (snd bc), body_alpha ?ec 200 d)) dy"
    by (intro exI [of _ 0] exI [of _ d]) (simp add: SIZE_def)
  then show ?thesis
    unfolding body_writes_mem .
qed

lemma flat_bands:
  "((0, 400), (25, 60, 100, 10))
     \<in> set (body_writes (y_func flat_a) (edge flat_a) (body flat_a) (depth flat_a))"
  "((0, 400), (200, 10, 10, 10))
     \<in> set (body_writes (y_func flat_c) (edge flat_c) (body flat_c) (depth flat_c))"
  "((0, 499), (25, 60, 100, 1))
     \<in> set (body_writes (y_func flat_a) (edge flat_a) (body flat_a) (depth flat_a))"
  "((0, 499), (200, 10, 10, 1))
     \<in> set (body_writes (y_func flat_c) (edge flat_c) (body flat_c) (depth flat_c))"
  unfolding y_func_flat
  using flat_store [of 100 "(25, 60, 100)"] flat_store [of 100 "(200, 10, 10)"]
    flat_store [of 199 "(25, 60, 100)"] flat_store [of 199 "(200, 10, 10)"]
  by (simp_all add: flat_a_def flat_c_def body_alpha_100_mid body_alpha_100_last)

lemma half_div:
  assumes "0 \<le> (n :: int)"
  shows "n div (2 * n) = 0"
proof (cases "n = 0")
  case True
  then show ?thesis by simp
next
  case False
  with assms have "0 \<le> n" "n < 2 * n"
    by simp_all
  then show ?thesis
    by (rule div_pos_pos_trivial)
qed

lemma segment_flat:
  assumes "snd a = c" and "snd b = c" and "p \<in> set (segment_pixels a b)"
  shows "snd p = c"
proof -
  define n where "n = max \<bar>fst b - fst a\<bar> \<bar>snd b - snd a\<bar>"
  have "0 \<le> n"
    by (simp add: n_def)
  then have h: "n div (2 * n) = 0"
    by (rule half_div)
  from assms(3) obtain i where "snd p = snd a + (2 * i * (snd b - snd a) + n) div (2 * n)"
    by (auto simp: segment_pixels_def Let_def n_def)
  with assms(1,2) h show ?thesis
    by simp
qed

lemma polyline_flat:
  assumes "\<forall>q \<in> set points. snd q = c" and "p \<in> set (polyline_pixels points)"
  shows "snd p = c"
proof -
  from assms(2) obtain a b where ab: "(a, b) \<in> set (zip points (tl points))"
    and p: "p \<in> set (segment_pixels a b)"
    by (auto simp: polyline_pixels_def)
  from ab have "a \<in> set points" and "b \<in> set (tl points)"
    by (auto dest: set_zip_leftD set_zip_rightD)
  moreover have "set (tl points) \<subseteq> set points"
    by (cases points) auto
  ultimately have "snd a = c" "snd b = c"
    using assms(1) by auto
  then show ?thesis
    using p by (rule segment_flat)
qed

lemma ref_edge_transparent:
  assumes "snd p \<noteq> 300"
  shows "edge_layer ref_pil (\<lambda>x. 300) ec p = (0, 0, 0, 0)"
proof -
  have "py_int 300 = 300"
    by (simp add: py_int_def)
  then have "\<forall>q \<in> set (map (\<lambda>x. (x, py_int 300)) (py_range SIZE)). snd q = 300"
    by simp
  then have "p \<notin> set (polyline_pixels (map (\<lambda>x. (x, py_int 300)) (py_range SIZE)))"
    using assms polyline_flat by blast
  then show ?thesis
    by (simp add: edge_layer_def ref_pil_def ref_line_def new_image_def ink4_def clip8_def)
qed

lemma ref_blur_transparent:
  assumes "\<forall>i j. - 3 * r \<le> i \<and> i \<le> 3 * r \<and> - 3 * r \<le> j \<and> j \<le> 3 * r \<longrightarrow>
             im (fst p + i, snd p + j) = (0, 0, 0, 0)"
  shows "ref_blur r im p = (0, 0, 0, 0)"
proof -
  let ?win = "concat (map (\<lambda>i. map (\<lambda>j. (i, j)) [- 3 * r..3 * r]) [- 3 * r..3 * r])"
  have z: "im (fst p + fst k, snd p + snd k) = (0, 0, 0, 0)" if "k \<in> set ?win" for k
    using that assms by auto
  have s: "sum_list (map (\<lambda>k. gauss_weight r k *
              real (unat (ch (im (fst p + fst k, snd p + snd k))))) ?win) = 0"
    if "ch (0, 0, 0, 0) = 0" for ch :: "rgba \<Rightarrow> 8 word"
  proof -
    have "map (\<lambda>k. gauss_weight r k * real (unat (ch (im (fst p + fst k, snd p + snd k))))) ?win
        = map (\<lambda>k. 0) ?win"
      by (rule map_cong [OF refl]) (simp add: z that)
    then show ?thesis
      by (simp only: sum_list_0)
  qed
  have s1: "sum_list (map (\<lambda>k. gauss_weight r k *
              real (unat (fst (im (fst p + fst k, snd p + snd k))))) ?win) = 0"
    by (rule s) simp
  have s2: "sum_list (map (\<lambda>k. gauss_weight r k *
              real (unat (fst (snd (im (fst p + fst k, snd p + snd k)))))) ?win) = 0"
    by (rule s) simp
  have s3: "sum_list (map (\<lambda>k. gauss_weight r k *
              real (unat (fst (snd (snd (im (fst p + fst k, snd p + snd k))))))) ?win) = 0"
    by (rule s) simp
  have s4: "sum_list (map (\<lambda>k. gauss_weight r k *
              real (unat (snd (snd (snd (im (fst p + fst k, snd p + snd k))))))) ?win) = 0"
    by (rule s) simp
  have c: "clip8 0 = 0"
    by (simp add: clip8_def)
  show ?thesis
    unfolding ref_blur_def Let_def s1 s2 s3 s4 by (simp add: c)
qed

lemma ref_bloom_transparent:
  assumes "snd p < 300 - 3 * r \<or> 300 + 3 * r < snd p"
  shows "bloom_layer ref_pil (\<lambda>x. 300) ec r p = (0, 0, 0, 0)"
proof -
  have "edge_layer ref_pil (\<lambda>x. 300) ec (fst p + i, snd p + j) = (0, 0, 0, 0)"
    if "- 3 * r \<le> j \<and> j \<le> 3 * r" for i j
    using that assms by (intro ref_edge_transparent) auto
  then have "ref_blur r (edge_layer ref_pil (\<lambda>x. 300) ec) p = (0, 0, 0, 0)"
    by (intro ref_blur_transparent) blast
  then show ?thesis
    by (simp add: bloom_layer_def ref_pil_def)
qed

lemma flat_layers_transparent:
  assumes "330 < y"
  shows "alpha_of (edge_layer ref_pil (y_func flat_a) (edge flat_a) (x, y)) = 0"
    and "alpha_of (bloom_layer ref_pil (y_func flat_a) (edge flat_a) (blur flat_a) (x, y)) = 0"
    and "alpha_of (edge_layer ref_pil (y_func flat_c) (edge flat_c) (x, y)) = 0"
    and "alpha_of (bloom_layer ref_pil (y_func flat_c) (edge flat_c) (blur flat_c) (x, y)) = 0"
proof -
  have b: "blur flat_a = 10" "blur flat_c = 10"
    by (simp_all add: flat_a_def flat_c_def)
  have e: "edge_layer ref_pil (\<lambda>x. 300) ec (x, y) = (0, 0, 0, 0)" for ec
    using assms by (intro ref_edge_transparent) simp
  have l: "bloom_layer ref_pil (\<lambda>x. 300) ec 10 (x, y) = (0, 0, 0, 0)" for ec
    using assms by (intro ref_bloom_transparent) simp
  show "alpha_of (edge_layer ref_pil (y_func flat_a) (edge flat_a) (x, y)) = 0"
    and "alpha_of (bloom_layer ref_pil (y_func flat_a) (edge flat_a) (blur flat_a) (x, y)) = 0"
    and "alpha_of (edge_layer ref_pil (y_func flat_c) (edge flat_c) (x, y)) = 0"
    and "alpha_of (bloom_layer ref_pil (y_func flat_c) (edge flat_c) (blur flat_c) (x, y)) = 0"
    unfolding y_func_flat b e l by (simp_all add: alpha_of_def)
qed

lemma ink4_values:
  "ink4 (25, 60, 100, 10) = (25, 60, 100, 10)"
  "ink4 (200, 10, 10, 10) = (200, 10, 10, 10)"
  "ink4 (25, 60, 100, 1) = (25, 60, 100, 1)"
  "ink4 (200, 10, 10, 1) = (200, 10, 10, 1)"
  "ink4 (5, 5, 12, 255) = (5, 5, 12, 255)"
  by (simp_all add: ink4_def clip8_def)

lemma composite_values:
  "composite_pixel (5, 5, 12, 255) (25, 60, 100, 10) = (6, 7, 15, 255)"
  "composite_pixel (6, 7, 15, 255) (200, 10, 10, 10) = (14, 7, 15, 255)"
  "composite_pixel (5, 5, 12, 255) (200, 10, 10, 10) = (13, 5, 12, 255)"
  "composite_pixel (13, 5, 12, 255) (25, 60, 100, 10) = (13, 7, 15, 255)"
  "composite_pixel (5, 5, 12, 255) (25, 60, 100, 1) = (5, 5, 12, 255)"
  "composite_pixel (5, 5, 12, 255) (200, 10, 10, 1) = (6, 5, 12, 255)"
  "composite_pixel (6, 5, 12, 255) (25, 60, 100, 1) = (6, 5, 12, 255)"
  by (simp_all add: composite_pixel_def shiftfordiv255_def Let_def)

lemma render_pair:
  "\<exists>la lb.
     body_layer (y_func A) (edge A) (body A) (depth A) = Inr la \<and>
     body_layer (y_func B) (edge B) (body B) (depth B) = Inr lb \<and>
     render_waves lib [A, B] c0 =
       Inr (alpha_composite
              (alpha_composite
                 (alpha_composite
                    (alpha_composite
                       (alpha_composite (alpha_composite c0 la)
                          (bloom_layer lib (y_func A) (edge A) (blur A)))
                       (edge_layer lib (y_func A) (edge A)))
                    lb)
                 (bloom_layer lib (y_func B) (edge B) (blur B)))
              (edge_layer lib (y_func B) (edge B)))"
proof -
  from draw_glass_wave_result [of "y_func A" "edge A" "body A" "depth A" lib c0 "blur A"]
  obtain la where la: "body_layer (y_func A) (edge A) (body A) (depth A) = Inr la"
    and a: "draw_glass_wave lib c0 (y_func A) (edge A) (body A) (depth A) (blur A) =
       Inr (alpha_composite
              (alpha_composite (alpha_composite c0 la)
                 (bloom_layer lib (y_func A) (edge A) (blur A)))
              (edge_layer lib (y_func A) (edge A)))"
    unfolding bloom_layer_def by blast
  let ?c1 = "alpha_composite
              (alpha_composite (alpha_composite c0 la)
                 (bloom_layer lib (y_func A) (edge A) (blur A)))
              (edge_layer lib (y_func A) (edge A))"
  from draw_glass_wave_result [of "y_func B" "edge B" "body B" "depth B" lib ?c1 "blur B"]
  obtain lb where lb: "body_layer (y_func B) (edge B) (body B) (depth B) = Inr lb"
    and b: "draw_glass_wave lib ?c1 (y_func B) (edge B) (body B) (depth B) (blur B) =
       Inr (alpha_composite
              (alpha_composite (alpha_composite ?c1 lb)
                 (bloom_layer lib (y_func B) (edge B) (blur B)))
              (edge_layer lib (y_func B) (edge B)))"
    unfolding bloom_layer_def by blast
  have "render_waves lib [A, B] c0 =
       Inr (alpha_composite
              (alpha_composite (alpha_composite ?c1 lb)
                 (bloom_layer lib (y_func B) (edge B) (blur B)))
              (edge_layer lib (y_func B) (edge B)))"
    by (simp only: render_waves_Cons [OF a] render_waves_Cons [OF b] render_waves_Nil)
  with la lb show ?thesis
    by blast
qed

lemma render_pair_pixel:
  assumes "(p, va) \<in> set (body_writes (y_func A) (edge A) (body A) (depth A))"
    and "(p, vb) \<in> set (body_writes (y_func B) (edge B) (body B) (depth B))"
    and "alpha_of (edge_layer lib (y_func A) (edge A) p) = 0"
    and "alpha_of (bloom_layer lib (y_func A) (edge A) (blur A) p) = 0"
    and "alpha_of (edge_layer lib (y_func B) (edge B) p) = 0"
    and "alpha_of (bloom_layer lib (y_func B) (edge B) (blur B) p) = 0"
  shows "\<exists>ab. render_waves lib [A, B] c0 = Inr ab \<and>
           ab p = composite_pixel (composite_pixel (c0 p) (ink4 va)) (ink4 vb)"
proof -
  from draw_glass_wave_pixel [OF assms(3,4,1), of c0] obtain c1 where
    c1: "draw_glass_wave lib c0 (y_func A) (edge A) (body A) (depth A) (blur A) = Inr c1"
    and p1: "c1 p = composite_pixel (c0 p) (ink4 va)"
    by blast
  from draw_glass_wave_pixel [OF assms(5,6,2), of c1] obtain c2 where
    c2: "draw_glass_wave lib c1 (y_func B) (edge B) (body B) (depth B) (blur B) = Inr c2"
    and p2: "c2 p = composite_pixel (c1 p) (ink4 vb)"
    by blast
  have "render_waves lib [A, B] c0 = Inr c2"
    by (simp only: render_waves_Cons [OF c1] render_waves_Cons [OF c2] render_waves_Nil)
  with p1 p2 show ?thesis
    by simp
qed

text \<open>
  C8, as amended. Rendering \<open>[A, B]\<close> composites the three layers of \<open>A\<close> and then the three
  layers of \<open>B\<close> onto the canvas, rendering \<open>[B, A]\<close> the layers of \<open>B\<close> first. At a pixel of
  the bands of both waves that neither wave's edge line nor bloom reaches, the first
  order gives the canvas pixel with the body pixel of \<open>A\<close> and then that of \<open>B\<close>
  composited over it, the second order the same with \<open>A\<close> and \<open>B\<close> exchanged; the two
  orders differ at the pixel exactly when these two values differ, which is not the case
  at every pixel of the overlap. They do differ for \<open>flat_a\<close> and \<open>flat_c\<close> at \<open>(0, 400)\<close>
  on a canvas that is \<open>(5, 5, 12, 255)\<close> there: \<open>(14, 7, 15, 255)\<close> against
  \<open>(13, 7, 15, 255)\<close>.
\<close>

theorem wave_order_matters:
  "(\<exists>la lb.
      body_layer (y_func A) (edge A) (body A) (depth A) = Inr la \<and>
      body_layer (y_func B) (edge B) (body B) (depth B) = Inr lb \<and>
      render_waves lib [A, B] c0 =
        Inr (alpha_composite
               (alpha_composite
                  (alpha_composite
                     (alpha_composite
                        (alpha_composite (alpha_composite c0 la)
                           (bloom_layer lib (y_func A) (edge A) (blur A)))
                        (edge_layer lib (y_func A) (edge A)))
                     lb)
                  (bloom_layer lib (y_func B) (edge B) (blur B)))
               (edge_layer lib (y_func B) (edge B))) \<and>
      render_waves lib [B, A] c0 =
        Inr (alpha_composite
               (alpha_composite
                  (alpha_composite
                     (alpha_composite
                        (alpha_composite (alpha_composite c0 lb)
                           (bloom_layer lib (y_func B) (edge B) (blur B)))
                        (edge_layer lib (y_func B) (edge B)))
                     la)
                  (bloom_layer lib (y_func A) (edge A) (blur A)))
               (edge_layer lib (y_func A) (edge A))))
   \<and> ((p, va) \<in> set (body_writes (y_func A) (edge A) (body A) (depth A)) \<and>
       (p, vb) \<in> set (body_writes (y_func B) (edge B) (body B) (depth B)) \<and>
       alpha_of (edge_layer lib (y_func A) (edge A) p) = 0 \<and>
       alpha_of (bloom_layer lib (y_func A) (edge A) (blur A) p) = 0 \<and>
       alpha_of (edge_layer lib (y_func B) (edge B) p) = 0 \<and>
       alpha_of (bloom_layer lib (y_func B) (edge B) (blur B) p) = 0 \<longrightarrow>
       (\<exists>ab ba.
          render_waves lib [A, B] c0 = Inr ab \<and> render_waves lib [B, A] c0 = Inr ba \<and>
          ab p = composite_pixel (composite_pixel (c0 p) (ink4 va)) (ink4 vb) \<and>
          ba p = composite_pixel (composite_pixel (c0 p) (ink4 vb)) (ink4 va) \<and>
          (ab p \<noteq> ba p \<longleftrightarrow>
             composite_pixel (composite_pixel (c0 p) (ink4 va)) (ink4 vb)
               \<noteq> composite_pixel (composite_pixel (c0 p) (ink4 vb)) (ink4 va))))
   \<and> (alpha_of (edge_layer lib (y_func flat_a) (edge flat_a) (0, 400)) = 0 \<and>
       alpha_of (bloom_layer lib (y_func flat_a) (edge flat_a) (blur flat_a) (0, 400)) = 0 \<and>
       alpha_of (edge_layer lib (y_func flat_c) (edge flat_c) (0, 400)) = 0 \<and>
       alpha_of (bloom_layer lib (y_func flat_c) (edge flat_c) (blur flat_c) (0, 400)) = 0 \<and>
       c1 (0, 400) = (5, 5, 12, 255) \<longrightarrow>
       ((0, 400), (25, 60, 100, 10))
          \<in> set (body_writes (y_func flat_a) (edge flat_a) (body flat_a) (depth flat_a)) \<and>
       ((0, 400), (200, 10, 10, 10))
          \<in> set (body_writes (y_func flat_c) (edge flat_c) (body flat_c) (depth flat_c)) \<and>
       (\<exists>ac ca.
          render_waves lib [flat_a, flat_c] c1 = Inr ac \<and>
          render_waves lib [flat_c, flat_a] c1 = Inr ca \<and>
          ac (0, 400) = (14, 7, 15, 255) \<and> ca (0, 400) = (13, 7, 15, 255) \<and>
          ac (0, 400) \<noteq> ca (0, 400)))"
proof (intro conjI impI)
  from render_pair [of A B lib c0] obtain la lb where
    la: "body_layer (y_func A) (edge A) (body A) (depth A) = Inr la"
    and lb: "body_layer (y_func B) (edge B) (body B) (depth B) = Inr lb"
    and ab: "render_waves lib [A, B] c0 =
        Inr (alpha_composite
               (alpha_composite
                  (alpha_composite
                     (alpha_composite
                        (alpha_composite (alpha_composite c0 la)
                           (bloom_layer lib (y_func A) (edge A) (blur A)))
                        (edge_layer lib (y_func A) (edge A)))
                     lb)
                  (bloom_layer lib (y_func B) (edge B) (blur B)))
               (edge_layer lib (y_func B) (edge B)))"
    by blast
  from render_pair [of B A lib c0] la lb have
    "render_waves lib [B, A] c0 =
        Inr (alpha_composite
               (alpha_composite
                  (alpha_composite
                     (alpha_composite
                        (alpha_composite (alpha_composite c0 lb)
                           (bloom_layer lib (y_func B) (edge B) (blur B)))
                        (edge_layer lib (y_func B) (edge B)))
                     la)
                  (bloom_layer lib (y_func A) (edge A) (blur A)))
               (edge_layer lib (y_func A) (edge A)))"
    by auto
  with la lb ab show "\<exists>la lb.
      body_layer (y_func A) (edge A) (body A) (depth A) = Inr la \<and>
      body_layer (y_func B) (edge B) (body B) (depth B) = Inr lb \<and>
      render_waves lib [A, B] c0 =
        Inr (alpha_composite
               (alpha_composite
                  (alpha_composite
                     (alpha_composite
                        (alpha_composite (alpha_composite c0 la)
                           (bloom_layer lib (y_func A) (edge A) (blur A)))
                        (edge_layer lib (y_func A) (edge A)))
                     lb)
                  (bloom_layer lib (y_func B) (edge B) (blur B)))
               (edge_layer lib (y_func B) (edge B))) \<and>
      render_waves lib [B, A] c0 =
        Inr (alpha_composite
               (alpha_composite
                  (alpha_composite
                     (alpha_composite
                        (alpha_composite (alpha_composite c0 lb)
                           (bloom_layer lib (y_func B) (edge B) (blur B)))
                        (edge_layer lib (y_func B) (edge B)))
                     la)
                  (bloom_layer lib (y_func A) (edge A) (blur A)))
               (edge_layer lib (y_func A) (edge A)))"
    by blast
next
  assume h: "(p, va) \<in> set (body_writes (y_func A) (edge A) (body A) (depth A)) \<and>
       (p, vb) \<in> set (body_writes (y_func B) (edge B) (body B) (depth B)) \<and>
       alpha_of (edge_layer lib (y_func A) (edge A) p) = 0 \<and>
       alpha_of (bloom_layer lib (y_func A) (edge A) (blur A) p) = 0 \<and>
       alpha_of (edge_layer lib (y_func B) (edge B) p) = 0 \<and>
       alpha_of (bloom_layer lib (y_func B) (edge B) (blur B) p) = 0"
  then have ma: "(p, va) \<in> set (body_writes (y_func A) (edge A) (body A) (depth A))"
    and mb: "(p, vb) \<in> set (body_writes (y_func B) (edge B) (body B) (depth B))"
    and ea: "alpha_of (edge_layer lib (y_func A) (edge A) p) = 0"
    and ba: "alpha_of (bloom_layer lib (y_func A) (edge A) (blur A) p) = 0"
    and eb: "alpha_of (edge_layer lib (y_func B) (edge B) p) = 0"
    and bb: "alpha_of (bloom_layer lib (y_func B) (edge B) (blur B) p) = 0"
    by simp_all
  from render_pair_pixel [OF ma mb ea ba eb bb, of c0] obtain ab where
    ab: "render_waves lib [A, B] c0 = Inr ab"
      "ab p = composite_pixel (composite_pixel (c0 p) (ink4 va)) (ink4 vb)"
    by blast
  from render_pair_pixel [OF mb ma eb bb ea ba, of c0] obtain ba' where
    ba': "render_waves lib [B, A] c0 = Inr ba'"
      "ba' p = composite_pixel (composite_pixel (c0 p) (ink4 vb)) (ink4 va)"
    by blast
  from ab ba' show "\<exists>ab ba.
          render_waves lib [A, B] c0 = Inr ab \<and> render_waves lib [B, A] c0 = Inr ba \<and>
          ab p = composite_pixel (composite_pixel (c0 p) (ink4 va)) (ink4 vb) \<and>
          ba p = composite_pixel (composite_pixel (c0 p) (ink4 vb)) (ink4 va) \<and>
          (ab p \<noteq> ba p \<longleftrightarrow>
             composite_pixel (composite_pixel (c0 p) (ink4 va)) (ink4 vb)
               \<noteq> composite_pixel (composite_pixel (c0 p) (ink4 vb)) (ink4 va))"
    by auto
next
  assume h: "alpha_of (edge_layer lib (y_func flat_a) (edge flat_a) (0, 400)) = 0 \<and>
       alpha_of (bloom_layer lib (y_func flat_a) (edge flat_a) (blur flat_a) (0, 400)) = 0 \<and>
       alpha_of (edge_layer lib (y_func flat_c) (edge flat_c) (0, 400)) = 0 \<and>
       alpha_of (bloom_layer lib (y_func flat_c) (edge flat_c) (blur flat_c) (0, 400)) = 0 \<and>
       c1 (0, 400) = (5, 5, 12, 255)"
  show "((0, 400), (25, 60, 100, 10))
          \<in> set (body_writes (y_func flat_a) (edge flat_a) (body flat_a) (depth flat_a))"
    by (rule flat_bands(1))
  show "((0, 400), (200, 10, 10, 10))
          \<in> set (body_writes (y_func flat_c) (edge flat_c) (body flat_c) (depth flat_c))"
    by (rule flat_bands(2))
  from h have ea: "alpha_of (edge_layer lib (y_func flat_a) (edge flat_a) (0, 400)) = 0"
    and ba: "alpha_of (bloom_layer lib (y_func flat_a) (edge flat_a) (blur flat_a) (0, 400)) = 0"
    and ec: "alpha_of (edge_layer lib (y_func flat_c) (edge flat_c) (0, 400)) = 0"
    and bc: "alpha_of (bloom_layer lib (y_func flat_c) (edge flat_c) (blur flat_c) (0, 400)) = 0"
    and cv: "c1 (0, 400) = (5, 5, 12, 255)"
    by simp_all
  from render_pair_pixel [OF flat_bands(1) flat_bands(2) ea ba ec bc, of c1] obtain ac where
    ac: "render_waves lib [flat_a, flat_c] c1 = Inr ac" "ac (0, 400) = (14, 7, 15, 255)"
    by (auto simp: cv ink4_values composite_values)
  from render_pair_pixel [OF flat_bands(2) flat_bands(1) ec bc ea ba, of c1] obtain ca where
    ca: "render_waves lib [flat_c, flat_a] c1 = Inr ca" "ca (0, 400) = (13, 7, 15, 255)"
    by (auto simp: cv ink4_values composite_values)
  have "ac (0, 400) \<noteq> ca (0, 400)"
    by (simp add: ac(2) ca(2))
  with ac ca show "\<exists>ac ca.
          render_waves lib [flat_a, flat_c] c1 = Inr ac \<and>
          render_waves lib [flat_c, flat_a] c1 = Inr ca \<and>
          ac (0, 400) = (14, 7, 15, 255) \<and> ca (0, 400) = (13, 7, 15, 255) \<and>
          ac (0, 400) \<noteq> ca (0, 400)"
    by blast
qed

text \<open>
  C8 as stated fails for \<open>flat_a\<close> and \<open>flat_c\<close>, two waves of different body colour whose
  bands coincide: the pixel \<open>(0, 499)\<close> lies in the band of both, with body alpha 1, and
  on a canvas of colour \<open>(5, 5, 12, 255)\<close> both orders render \<open>(6, 5, 12, 255)\<close> there.
\<close>

theorem wave_order_counterexample:
  "((0, 499), (25, 60, 100, 1))
      \<in> set (body_writes (y_func flat_a) (edge flat_a) (body flat_a) (depth flat_a))
   \<and> ((0, 499), (200, 10, 10, 1))
      \<in> set (body_writes (y_func flat_c) (edge flat_c) (body flat_c) (depth flat_c))
   \<and> pixel_of (render_waves ref_pil [flat_a, flat_c] (new_image (ink4 (5, 5, 12, 255)))) (0, 499)
       = Some (6, 5, 12, 255)
   \<and> pixel_of (render_waves ref_pil [flat_c, flat_a] (new_image (ink4 (5, 5, 12, 255)))) (0, 499)
       = Some (6, 5, 12, 255)"
proof -
  let ?c = "new_image (ink4 (5, 5, 12, 255)) :: rgba image"
  have cv: "?c (0, 499) = (5, 5, 12, 255)"
    by (simp add: new_image_def ink4_values)
  note t = flat_layers_transparent [of 499 0, simplified]
  from render_pair_pixel [OF flat_bands(3) flat_bands(4) t, of ?c] obtain ac where
    "render_waves ref_pil [flat_a, flat_c] ?c = Inr ac" "ac (0, 499) = (6, 5, 12, 255)"
    by (auto simp: new_image_def ink4_values composite_values)
  then have a: "pixel_of (render_waves ref_pil [flat_a, flat_c] ?c) (0, 499) = Some (6, 5, 12, 255)"
    by (simp add: pixel_of_def)
  from render_pair_pixel [OF flat_bands(4) flat_bands(3) t(3,4,1,2), of ?c] obtain ca where
    "render_waves ref_pil [flat_c, flat_a] ?c = Inr ca" "ca (0, 499) = (6, 5, 12, 255)"
    by (auto simp: new_image_def ink4_values composite_values)
  then have b: "pixel_of (render_waves ref_pil [flat_c, flat_a] ?c) (0, 499) = Some (6, 5, 12, 255)"
    by (simp add: pixel_of_def)
  from flat_bands(3,4) a b show ?thesis
    by blast
qed

theorem wave_order_matters_witness:
  "((0, 400), (25, 60, 100, 10))
      \<in> set (body_writes (y_func flat_a) (edge flat_a) (body flat_a) (depth flat_a))
   \<and> ((0, 400), (200, 10, 10, 10))
      \<in> set (body_writes (y_func flat_c) (edge flat_c) (body flat_c) (depth flat_c))
   \<and> alpha_of (edge_layer ref_pil (y_func flat_a) (edge flat_a) (0, 400)) = 0
   \<and> alpha_of (bloom_layer ref_pil (y_func flat_a) (edge flat_a) (blur flat_a) (0, 400)) = 0
   \<and> alpha_of (edge_layer ref_pil (y_func flat_c) (edge flat_c) (0, 400)) = 0
   \<and> alpha_of (bloom_layer ref_pil (y_func flat_c) (edge flat_c) (blur flat_c) (0, 400)) = 0
   \<and> new_image (ink4 (5, 5, 12, 255)) (0, 400) = (5, 5, 12, 255)
   \<and> (\<exists>ab ba.
        render_waves ref_pil [flat_a, flat_c] (new_image (ink4 (5, 5, 12, 255))) = Inr ab \<and>
        render_waves ref_pil [flat_c, flat_a] (new_image (ink4 (5, 5, 12, 255))) = Inr ba \<and>
        ab (0, 400) =
          composite_pixel (composite_pixel (5, 5, 12, 255) (25, 60, 100, 10)) (200, 10, 10, 10) \<and>
        ba (0, 400) =
          composite_pixel (composite_pixel (5, 5, 12, 255) (200, 10, 10, 10)) (25, 60, 100, 10) \<and>
        ab (0, 400) = (14, 7, 15, 255) \<and> ba (0, 400) = (13, 7, 15, 255))"
proof -
  let ?c = "new_image (ink4 (5, 5, 12, 255)) :: rgba image"
  let ?p = "(0, 400) :: int \<times> int"
  note inst = wave_order_matters [of flat_a flat_c ref_pil ?c ?p "(25, 60, 100, 10)"
      "(200, 10, 10, 10)" ?c]
  note t = flat_layers_transparent [of 400 0, simplified]
  have cv: "?c ?p = (5, 5, 12, 255)"
    by (simp add: new_image_def ink4_values)
  from inst flat_bands(1,2) t have
    "\<exists>ab ba.
        render_waves ref_pil [flat_a, flat_c] ?c = Inr ab \<and>
        render_waves ref_pil [flat_c, flat_a] ?c = Inr ba \<and>
        ab ?p = composite_pixel (composite_pixel (?c ?p) (ink4 (25, 60, 100, 10)))
                  (ink4 (200, 10, 10, 10)) \<and>
        ba ?p = composite_pixel (composite_pixel (?c ?p) (ink4 (200, 10, 10, 10)))
                  (ink4 (25, 60, 100, 10))"
    by blast
  then have "\<exists>ab ba.
        render_waves ref_pil [flat_a, flat_c] ?c = Inr ab \<and>
        render_waves ref_pil [flat_c, flat_a] ?c = Inr ba \<and>
        ab ?p =
          composite_pixel (composite_pixel (5, 5, 12, 255) (25, 60, 100, 10)) (200, 10, 10, 10) \<and>
        ba ?p =
          composite_pixel (composite_pixel (5, 5, 12, 255) (200, 10, 10, 10)) (25, 60, 100, 10) \<and>
        ab ?p = (14, 7, 15, 255) \<and> ba ?p = (13, 7, 15, 255)"
    by (auto simp: new_image_def ink4_values composite_values)
  with flat_bands(1,2) t cv show ?thesis
    by blast
qed

end
